theory Spec2Isabelle
  imports Complex_Main "HOL-Library.Word" "HOL-Library.Sublist"
begin

unbundle bit_operations_syntax

text \<open>
  A shallow embedding of the voice pipeline of the assistant: the audio capture with its
  voice level meter and voice-activity segmentation, the encoding of a finished segment
  for transport, the speech-to-text service that turns provider messages into
  transcription callbacks, and the orchestrator of one conversational turn. Each
  JavaScript method is a function from the fields it reads to the fields it writes
  together with a log of the calls it makes on its collaborators.
\<close>

section \<open>Audio capture with voice-activity segmentation (class AskAudioCapture)\<close>

subsection \<open>Configuration constants set by the constructor\<close>

definition SAMPLE_RATE :: real where
  "SAMPLE_RATE = 24000"

definition VOICE_LEVEL_HISTORY_SIZE :: nat where
  "VOICE_LEVEL_HISTORY_SIZE = 10"

definition VOICE_LEVEL_SMOOTHING :: real where
  "VOICE_LEVEL_SMOOTHING = 0.3"

definition SILENCE_THRESHOLD_FRAMES :: nat where
  "SILENCE_THRESHOLD_FRAMES = 5"

definition VOICE_THRESHOLD_FRAMES :: nat where
  "VOICE_THRESHOLD_FRAMES = 2"

definition MAX_SEGMENT_DURATION :: real where
  "MAX_SEGMENT_DURATION = 30"

definition MIN_SEGMENT_DURATION :: real where
  "MIN_SEGMENT_DURATION = 0.5"

definition VOICE_LEVEL_MIN :: real where
  "VOICE_LEVEL_MIN = 0.005"

definition VOICE_LEVEL_MAX :: real where
  "VOICE_LEVEL_MAX = 0.1"

subsection \<open>The mutable fields of the capture object\<close>

text \<open>
  Samples are the numbers of a Float32Array, modelled as reals. Two logs stand for the
  calls that leave the object: \<open>sentSegments\<close> records every argument of
  \<open>sendVoiceSegmentToSTT\<close>, \<open>uiUpdates\<close> every call of \<open>updateVoiceActivityUI\<close>.
\<close>

record capture =
  currentSegment :: "real list"
  isCurrentlyVoice :: bool
  silenceFrameCount :: nat
  voiceFrameCount :: nat
  currentVoiceLevel :: real
  smoothedVoiceLevel :: real
  voiceLevelHistory :: "real list"
  sentSegments :: "real list list"
  uiUpdates :: "(bool \<times> real) list"

definition initial_capture :: capture where
  "initial_capture =
     \<lparr> currentSegment = [], isCurrentlyVoice = False, silenceFrameCount = 0,
       voiceFrameCount = 0, currentVoiceLevel = 0, smoothedVoiceLevel = 0,
       voiceLevelHistory = [], sentSegments = [], uiUpdates = [] \<rparr>"

subsection \<open>Voice level meter\<close>

definition updateSmoothedVoiceLevel :: "capture \<Rightarrow> capture" where
  "updateSmoothedVoiceLevel s =
     (let avgLevel =
            (if length (voiceLevelHistory s) > 0
             then foldl (\<lambda>a b. a + b) 0 (voiceLevelHistory s) / real (length (voiceLevelHistory s))
             else 0)
      in s\<lparr>smoothedVoiceLevel :=
              smoothedVoiceLevel s * (1 - VOICE_LEVEL_SMOOTHING) + avgLevel * VOICE_LEVEL_SMOOTHING\<rparr>)"

text \<open>
  The argument is \<open>None\<close> for an absent frame (\<open>!audioData\<close>). The early return gives the
  literal 0; the other path returns the smoothed level.
\<close>

definition calculateVoiceLevel :: "real list option \<Rightarrow> capture \<Rightarrow> real \<times> capture" where
  "calculateVoiceLevel audioData s =
     (case audioData of
        None \<Rightarrow> (0, updateSmoothedVoiceLevel (s\<lparr>currentVoiceLevel := 0\<rparr>))
      | Some d \<Rightarrow>
          if length d = 0
          then (0, updateSmoothedVoiceLevel (s\<lparr>currentVoiceLevel := 0\<rparr>))
          else
            (let sumOfSquares = foldl (\<lambda>acc x. acc + x * x) 0 d;
                 rms = sqrt (sumOfSquares / real (length d));
                 lvl = min 1 (max 0 ((rms - VOICE_LEVEL_MIN) / (VOICE_LEVEL_MAX - VOICE_LEVEL_MIN)));
                 pushed = voiceLevelHistory s @ [lvl];
                 hist = (if length pushed > VOICE_LEVEL_HISTORY_SIZE then tl pushed else pushed);
                 s' = updateSmoothedVoiceLevel (s\<lparr>currentVoiceLevel := lvl, voiceLevelHistory := hist\<rparr>)
             in (smoothedVoiceLevel s', s')))"

subsection \<open>Segmentation\<close>

definition segmentDuration :: "real list \<Rightarrow> real" where
  "segmentDuration seg = real (length seg) / SAMPLE_RATE"

definition endVoiceSegment :: "capture \<Rightarrow> capture" where
  "endVoiceSegment s =
     (if \<not> isCurrentlyVoice s then s
      else
        (let s1 = s\<lparr>isCurrentlyVoice := False\<rparr>;
             s2 = (if segmentDuration (currentSegment s1) \<ge> MIN_SEGMENT_DURATION
                   then s1\<lparr>sentSegments := sentSegments s1 @ [currentSegment s1]\<rparr>
                   else s1)
         in s2\<lparr>currentSegment := [], voiceFrameCount := 0, silenceFrameCount := 0\<rparr>))"

definition handleVoiceSegment :: "real list \<Rightarrow> bool \<Rightarrow> real \<Rightarrow> capture \<Rightarrow> capture" where
  "handleVoiceSegment audioChunk hasVoice voiceLevel s =
     (let s1 = s\<lparr>currentSegment := currentSegment s @ audioChunk,
                 uiUpdates := uiUpdates s @ [(hasVoice, voiceLevel)]\<rparr>;
          s2 = (if hasVoice
                then
                  (let v = s1\<lparr>voiceFrameCount := voiceFrameCount s1 + 1, silenceFrameCount := 0\<rparr>
                   in if \<not> isCurrentlyVoice v \<and> voiceFrameCount v \<ge> VOICE_THRESHOLD_FRAMES
                      then v\<lparr>isCurrentlyVoice := True\<rparr> else v)
                else
                  (let q = s1\<lparr>silenceFrameCount := silenceFrameCount s1 + 1, voiceFrameCount := 0\<rparr>
                   in if isCurrentlyVoice q \<and> silenceFrameCount q \<ge> SILENCE_THRESHOLD_FRAMES
                      then endVoiceSegment q else q))
      in if segmentDuration (currentSegment s2) \<ge> MAX_SEGMENT_DURATION
         then endVoiceSegment s2 else s2)"

text \<open>
  A frame as the capture callback hands it to \<open>handleVoiceSegment\<close>: the chunk, the
  decision of the frame-level detector and the voice level. The detector is external
  (Speex, or the energy fallback), so its decision is part of the input.
\<close>

type_synonym frame = "real list \<times> bool \<times> real"

fun feed :: "frame list \<Rightarrow> capture \<Rightarrow> capture" where
  "feed [] s = s"
| "feed ((chunk, hasVoice, lvl) # fs) s = feed fs (handleVoiceSegment chunk hasVoice lvl s)"

text \<open>\<open>stopCapture\<close> up to the release of the device: the open segment is ended first.\<close>

definition stopCapture_segment :: "capture \<Rightarrow> capture" where
  "stopCapture_segment s =
     (let s1 = (if isCurrentlyVoice s then endVoiceSegment s else s)
      in s1\<lparr>uiUpdates := uiUpdates s1 @ [(False, 0)]\<rparr>)"

section \<open>JavaScript string operations used by the services\<close>

text \<open>
  Strings are lists of 8-bit characters. \<open>isWhiteSpace\<close> lists the characters that
  \<open>String.prototype.trim\<close> strips and that fit in eight bits: tab, line feed, vertical
  tab, form feed, carriage return, space and the no-break space.
\<close>

definition isWhiteSpace :: "char \<Rightarrow> bool" where
  "isWhiteSpace c = (of_char c \<in> {9, 10, 11, 12, 13, 32, 160 :: nat})"

definition trim :: "string \<Rightarrow> string" where
  "trim s = rev (dropWhile isWhiteSpace (rev (dropWhile isWhiteSpace s)))"

fun str_includes :: "string \<Rightarrow> string \<Rightarrow> bool" where
  "str_includes [] p = (p = [])"
| "str_includes (c # cs) p = (prefix p (c # cs) \<or> str_includes cs p)"

definition toLowerChar :: "char \<Rightarrow> char" where
  "toLowerChar c =
     (let n = (of_char c :: nat)
      in if (65 \<le> n \<and> n \<le> 90) \<or> (192 \<le> n \<and> n \<le> 222 \<and> n \<noteq> 215)
         then char_of (n + 32) else c)"

definition toLowerCase :: "string \<Rightarrow> string" where
  "toLowerCase s = map toLowerChar s"

fun splitOn :: "char \<Rightarrow> string \<Rightarrow> string list" where
  "splitOn d [] = [[]]"
| "splitOn d (c # cs) =
     (if c = d then [] # splitOn d cs
      else (case splitOn d cs of [] \<Rightarrow> [[c]] | w # ws \<Rightarrow> (c # w) # ws))"

text \<open>A string-valued property that may be absent; the empty string and an absent one are falsy.\<close>

definition truthy :: "string option \<Rightarrow> bool" where
  "truthy v = (case v of None \<Rightarrow> False | Some t \<Rightarrow> t \<noteq> [])"

definition orElse :: "string option \<Rightarrow> string option \<Rightarrow> string option" where
  "orElse a b = (if truthy a then a else b)"

section \<open>Speech-to-text service (class AskSttService)\<close>

record model_info =
  provider :: string
  model :: string
  apiKey :: string

text \<open>
  The callback fields hold functions of the caller; the model keeps whether each one is
  set and logs every invocation as an effect, together with the calls on the adapter.
\<close>

datatype payload = GeminiAudio string string | DecodedBase64 string | RawData string

datatype stt_effect =
    OnTranscriptionUpdate string bool
  | OnTranscriptionComplete string
  | OnStatusUpdate string
  | OnError string
  | SessionClose
  | LogError string
  | SendRealtimeInput payload

record stt_service =
  sttSession :: bool
  isListening :: bool
  currentTranscription :: string
  modelInfo :: "model_info option"
  onTranscriptionUpdate :: bool
  onTranscriptionComplete :: bool
  onStatusUpdate :: bool
  onError :: bool

definition initial_stt :: stt_service where
  "initial_stt =
     \<lparr> sttSession = False, isListening = False, currentTranscription = [], modelInfo = None,
       onTranscriptionUpdate = False, onTranscriptionComplete = False,
       onStatusUpdate = False, onError = False \<rparr>"

text \<open>
  The fields a raw provider message is read for: \<open>msg_text\<close> is \<open>message.text\<close>,
  \<open>channelTranscript\<close> is \<open>message.channel?.alternatives?.[0]?.transcript\<close>,
  \<open>turnComplete\<close> is \<open>message.serverContent?.turnComplete\<close>,
  \<open>inputTranscriptionText\<close> is \<open>message.serverContent?.inputTranscription.text\<close>
  (absent when there is no \<open>inputTranscription\<close>), \<open>msg_type\<close> is \<open>message.type\<close>,
  \<open>altTranscript\<close> is \<open>message.alternatives && message.alternatives[0]?.transcript\<close>
  and \<open>msg_error\<close> is \<open>message.error\<close>.
\<close>

record stt_message =
  msg_text :: "string option"
  channelTranscript :: "string option"
  is_final :: bool
  turnComplete :: bool
  inputTranscriptionText :: "string option"
  msg_type :: "string option"
  transcript :: "string option"
  delta :: "string option"
  altTranscript :: "string option"
  msg_error :: "string option"

definition noisePatterns :: "string list" where
  "noisePatterns =
     [''[BLANK_AUDIO]'', ''[INAUDIBLE]'', ''[MUSIC]'', ''[SOUND]'', ''[NOISE]'',
      ''(BLANK_AUDIO)'', ''(INAUDIBLE)'', ''(MUSIC)'', ''(SOUND)'', ''(NOISE)'']"

definition emitUpdate :: "stt_service \<Rightarrow> string \<Rightarrow> bool \<Rightarrow> stt_effect list" where
  "emitUpdate s t fin = (if onTranscriptionUpdate s then [OnTranscriptionUpdate t fin] else [])"

definition emitComplete :: "stt_service \<Rightarrow> string \<Rightarrow> stt_effect list" where
  "emitComplete s t = (if onTranscriptionComplete s then [OnTranscriptionComplete t] else [])"

definition emitStatus :: "stt_service \<Rightarrow> string \<Rightarrow> stt_effect list" where
  "emitStatus s st = (if onStatusUpdate s then [OnStatusUpdate st] else [])"

definition emitError :: "stt_service \<Rightarrow> string \<Rightarrow> stt_effect list" where
  "emitError s e = (if onError s then [OnError e] else [])"

text \<open>The check of \<open>message.error\<close> that closes \<open>handleMessage\<close> on the paths that reach it.\<close>

definition messageErrorCheck ::
  "stt_message \<Rightarrow> stt_service \<times> stt_effect list \<Rightarrow> stt_service \<times> stt_effect list" where
  "messageErrorCheck m r =
     (case r of (s, evs) \<Rightarrow>
        (s, evs @ (if truthy (msg_error m) then LogError (the (msg_error m)) # emitError s (the (msg_error m))
                   else [])))"

definition handleMessage :: "stt_message \<Rightarrow> stt_service \<Rightarrow> stt_service \<times> stt_effect list" where
  "handleMessage m s =
     (case modelInfo s of
        None \<Rightarrow> (s, [])
      | Some mi \<Rightarrow>
          if provider mi = ''whisper'' then
            messageErrorCheck m
              (if truthy (msg_text m) \<and> trim (the (msg_text m)) \<noteq> [] then
                 (let finalText = trim (the (msg_text m));
                      isNoise = list_ex (\<lambda>pattern. str_includes finalText pattern \<or> finalText = pattern)
                                  noisePatterns
                  in if \<not> isNoise \<and> length finalText > 2
                     then (s\<lparr>currentTranscription := finalText\<rparr>,
                           emitUpdate s finalText True @ emitComplete s finalText)
                     else (s, []))
               else (s, []))
          else if provider mi = ''deepgram'' then
            (if \<not> truthy (channelTranscript m) \<or> length (trim (the (channelTranscript m))) = 0
             then (s, [])
             else
               (let text = the (channelTranscript m)
                in messageErrorCheck m
                     (if is_final m
                      then (s\<lparr>currentTranscription := text\<rparr>,
                            emitUpdate s text True @ emitComplete s text)
                      else (s, emitUpdate s text False))))
          else if provider mi = ''gemini'' then
            (if turnComplete m
             then (s, if currentTranscription s \<noteq> [] then emitComplete s (currentTranscription s) else [])
             else if \<not> truthy (inputTranscriptionText m) then (s, [])
             else
               (let textChunk = the (inputTranscriptionText m)
                in if trim textChunk = [] \<or> trim textChunk = ''<noise>'' then (s, [])
                   else
                     (let s' = s\<lparr>currentTranscription := currentTranscription s @ textChunk\<rparr>
                      in messageErrorCheck m (s', emitUpdate s' (currentTranscription s') False))))
          else
            (let text = (case orElse (orElse (transcript m) (delta m)) (altTranscript m) of
                           None \<Rightarrow> [] | Some t \<Rightarrow> t)
             in messageErrorCheck m
                  (if msg_type m = Some ''conversation.item.input_audio_transcription.delta'' then
                     (let s' = s\<lparr>currentTranscription := currentTranscription s @ text\<rparr>
                      in (s', if text \<noteq> [] \<and> \<not> str_includes text ''vq_lbr_audio_''
                              then emitUpdate s' (currentTranscription s') False else []))
                   else if msg_type m = Some ''conversation.item.input_audio_transcription.completed'' then
                     (if text \<noteq> [] \<and> trim text \<noteq> [] then
                        (let s' = s\<lparr>currentTranscription := trim text\<rparr>
                         in (s', emitUpdate s' (currentTranscription s') True
                                 @ emitComplete s' (currentTranscription s')))
                      else (s, []))
                   else (s, []))))"

definition setCallbacks :: "bool \<Rightarrow> bool \<Rightarrow> bool \<Rightarrow> bool \<Rightarrow> stt_service \<Rightarrow> stt_service" where
  "setCallbacks u c st e s =
     s\<lparr>onTranscriptionUpdate := u, onTranscriptionComplete := c, onStatusUpdate := st, onError := e\<rparr>"

text \<open>
  \<open>initializeSession\<close>: \<open>info\<close> is what \<open>getCurrentModelInfo('stt')\<close> resolves to and
  \<open>created\<close> the outcome of \<open>createSTT\<close> (\<open>Some e\<close> when it rejects with message \<open>e\<close>).
  The boolean is the returned value.
\<close>

definition initializeSession ::
  "model_info option \<Rightarrow> string option \<Rightarrow> stt_service \<Rightarrow> stt_service \<times> stt_effect list \<times> bool" where
  "initializeSession info created s =
     (case info of
        None \<Rightarrow>
          (s, LogError ''STT model or API key is not configured.''
              # emitError s ''STT model or API key is not configured.'', False)
      | Some mi \<Rightarrow>
          if apiKey mi = [] then
            (s, LogError ''STT model or API key is not configured.''
                # emitError s ''STT model or API key is not configured.'', False)
          else
            (let s1 = s\<lparr>modelInfo := Some mi\<rparr>
             in case created of
                  Some e \<Rightarrow> (s1, LogError e # emitError s1 e, False)
                | None \<Rightarrow>
                    (let s2 = s1\<lparr>sttSession := True\<rparr>
                     in (s2, emitStatus s2 ''ready'', True))))"

definition startListening :: "stt_service \<Rightarrow> string + stt_service \<times> stt_effect list" where
  "startListening s =
     (if \<not> sttSession s then Inl ''STT session not initialized''
      else if isListening s then Inr (s, [])
      else
        (let s' = s\<lparr>isListening := True, currentTranscription := []\<rparr>
         in Inr (s', emitStatus s' ''listening'')))"

definition stopListening :: "stt_service \<Rightarrow> stt_service \<times> stt_effect list" where
  "stopListening s =
     (if \<not> isListening s then (s, [])
      else (let s' = s\<lparr>isListening := False\<rparr> in (s', emitStatus s' ''stopped'')))"

text \<open>
  \<open>sendAudioData\<close>: \<open>fetched\<close> is what the on-the-fly lookup of the model info resolves
  to when \<open>this.modelInfo\<close> is unset, \<open>sent\<close> the outcome of \<open>sendRealtimeInput\<close>.
  No field of the service is written.
\<close>

definition sendAudioData ::
  "string \<Rightarrow> string option \<Rightarrow> model_info option \<Rightarrow> string option \<Rightarrow> stt_service
     \<Rightarrow> string + stt_effect list" where
  "sendAudioData data mimeType fetched sent s =
     (if \<not> sttSession s then Inl ''STT session not active''
      else if \<not> isListening s then Inl ''Not currently listening''
      else
        (case (case modelInfo s of Some mi \<Rightarrow> Some mi | None \<Rightarrow> fetched) of
           None \<Rightarrow> Inl ''STT model info could not be retrieved.''
         | Some mi \<Rightarrow>
             (let payload =
                    (if provider mi = ''gemini''
                     then GeminiAudio data (if truthy mimeType then the mimeType else ''audio/pcm;rate=24000'')
                     else if provider mi = ''deepgram'' then DecodedBase64 data
                     else RawData data)
              in case sent of
                   Some e \<Rightarrow> Inl e
                 | None \<Rightarrow> Inr [SendRealtimeInput payload])))"

text \<open>
  \<open>closeSession\<close>: \<open>closeResult\<close> is the outcome of the adapter's \<open>close()\<close>; a rejection is
  caught and logged. No path of the function throws.
\<close>

definition closeSession :: "string option \<Rightarrow> stt_service \<Rightarrow> stt_service \<times> stt_effect list" where
  "closeSession closeResult s =
     (let (s1, evs1) =
            (if sttSession s
             then (s\<lparr>sttSession := False\<rparr>,
                   SessionClose # (case closeResult of None \<Rightarrow> [] | Some e \<Rightarrow> [LogError e]))
             else (s, []));
          s2 = s1\<lparr>isListening := False, currentTranscription := [], modelInfo := None\<rparr>
      in (s2, evs1 @ emitStatus s2 ''disconnected''))"

text \<open>The \<open>onclose\<close> and \<open>onerror\<close> callbacks handed to the adapter.\<close>

definition adapter_onclose :: "stt_service \<Rightarrow> stt_service \<times> stt_effect list" where
  "adapter_onclose s =
     (let s' = s\<lparr>isListening := False\<rparr> in (s', emitStatus s' ''disconnected''))"

definition adapter_onerror :: "string \<Rightarrow> stt_service \<Rightarrow> stt_service \<times> stt_effect list" where
  "adapter_onerror e s = (s, LogError e # emitError s e)"

text \<open>
  Every operation on the service, as one step; a call that throws leaves the fields as
  they were.
\<close>

datatype stt_op =
    SetCallbacks bool bool bool bool
  | InitializeSession "model_info option" "string option"
  | StartListening
  | StopListening
  | SendAudioData string "string option" "model_info option" "string option"
  | CloseSession "string option"
  | HandleMessage stt_message
  | AdapterClosed
  | AdapterError string

fun stt_step :: "stt_op \<Rightarrow> stt_service \<Rightarrow> stt_service \<times> stt_effect list" where
  "stt_step (SetCallbacks u c st e) s = (setCallbacks u c st e s, [])"
| "stt_step (InitializeSession info created) s =
     (case initializeSession info created s of (s', evs, _) \<Rightarrow> (s', evs))"
| "stt_step StartListening s = (case startListening s of Inl _ \<Rightarrow> (s, []) | Inr r \<Rightarrow> r)"
| "stt_step StopListening s = stopListening s"
| "stt_step (SendAudioData d mt fetched sent) s =
     (case sendAudioData d mt fetched sent s of Inl _ \<Rightarrow> (s, []) | Inr evs \<Rightarrow> (s, evs))"
| "stt_step (CloseSession closeResult) s = closeSession closeResult s"
| "stt_step (HandleMessage m) s = handleMessage m s"
| "stt_step AdapterClosed s = adapter_onclose s"
| "stt_step (AdapterError e) s = adapter_onerror e s"

text \<open>The \<open>Final\<close> events of the canonical protocol are the completion callbacks.\<close>

definition raisesFinal :: "stt_effect list \<Rightarrow> bool" where
  "raisesFinal evs = list_ex (\<lambda>e. case e of OnTranscriptionComplete _ \<Rightarrow> True | _ \<Rightarrow> False) evs"

definition countDisconnected :: "stt_effect list \<Rightarrow> nat" where
  "countDisconnected evs = length (filter (\<lambda>e. e = OnStatusUpdate ''disconnected'') evs)"

section \<open>Conversational turn orchestrator (class AskService)\<close>

subsection \<open>State, messages, collaborators\<close>

text \<open>
  \<open>this.state\<close>. Its field \<open>isListening\<close> is named \<open>isListeningAsk\<close> here, the
  speech-to-text service having a field of the same name.
\<close>

record ask_state =
  isVisible :: bool
  isLoading :: bool
  isStreaming :: bool
  currentQuestion :: string
  currentResponse :: string
  conversationalResponse :: string
  showTextInput :: bool
  isListeningAsk :: bool
  sttTranscription :: string

record ask_service =
  state :: ask_state
  abortController :: bool

text \<open>A thrown value, read only for its \<open>message\<close>, which may be missing.\<close>

datatype js_error = JsError (message: "string option")

datatype content_part = TextPart string | ImageUrlPart string

datatype message_content = PlainContent string | PartsContent "content_part list"

record chat_message =
  role :: string
  content :: message_content

text \<open>
  What \<open>reader.read()\<close> resolves to, call after call: a decoded chunk, or a rejection.
  The end of the list is \<open>done\<close>.
\<close>

datatype read_result = ReadChunk string | ReadFails js_error

text \<open>The places where the turn looks up the ask window and tests that it is alive.\<close>

datatype win_check =
  AtPrimaryStream | AtConversational | AtFallbackStream | AtStreamError | AtTurnError

datatype win_message =
    ConversationalResponse string string
  | StreamError "string option"

datatype turn_result = Success | Failure "string option"

text \<open>
  The calls that leave the orchestrator, in the order they are made: visibility requests,
  state broadcasts, the abort of the previous turn, the streaming calls of the primary
  client (\<open>StreamChat\<close>, created with \<open>maxTokens: 2048\<close>) and of the client of the
  parallel generation (\<open>ConvStreamChat\<close>, \<open>maxTokens: 300\<close>), persisted messages,
  messages to the ask window (the conversational response is what the window speaks) and
  the cancelling of a reader.
\<close>

datatype ask_effect =
    RequestVisibility bool
  | BroadcastState ask_state
  | AbortPrevious string
  | StreamChat "chat_message list"
  | ConvStreamChat "chat_message list"
  | AddAiMessage nat string string
  | WinSend win_message
  | ReaderCancel

text \<open>
  The collaborators of one turn, as what each of them answers: the session repository, the
  two writes of the message repository, the model state service, the screenshot capture
  (\<open>screenshotResult.success ? screenshotResult.base64 : null\<close>), the prompt builder,
  the template of the spoken-style prompt with the user prompt filled in, the two
  streaming clients, \<open>JSON.parse(data).choices[0]?.delta?.content || ''\<close> (\<open>None\<close>
  when it throws), the window pool and \<open>signal.aborted\<close> at the time a read fails.
  Creating a streaming client (\<open>createStreamingLLM\<close>) is taken to succeed; a client is
  what its \<open>streamChat\<close> answers for a message list.
\<close>

record ask_env =
  getOrCreateActive :: "js_error + nat"
  addUserMessage :: "js_error option"
  addAssistantMessage :: "js_error option"
  currentModelInfo :: "model_info option"
  screenshot :: "string option"
  getSystemPrompt :: "string \<Rightarrow> string"
  conversationalPrompt :: "string \<Rightarrow> string"
  streamChat :: "chat_message list \<Rightarrow> js_error + read_result list"
  convStreamChat :: "chat_message list \<Rightarrow> js_error + read_result list"
  parseToken :: "string \<Rightarrow> string option"
  windowAvailable :: "win_check \<Rightarrow> bool"
  aborted :: bool

subsection \<open>Prompt and message lists\<close>

fun joinWith :: "string \<Rightarrow> string list \<Rightarrow> string" where
  "joinWith sep [] = []"
| "joinWith sep [x] = x"
| "joinWith sep (x # y # ys) = x @ sep @ joinWith sep (y # ys)"

definition formatConversationForPrompt :: "string list \<Rightarrow> string" where
  "formatConversationForPrompt conversationTexts =
     (if length conversationTexts = 0 then ''No conversation history available.''
      else joinWith [CHR 0x0A] (drop (length conversationTexts - 30) conversationTexts))"

definition imageUrl :: "string \<Rightarrow> content_part" where
  "imageUrl screenshotBase64 = ImageUrlPart (''data:image/jpeg;base64,'' @ screenshotBase64)"

definition primaryMessages :: "string \<Rightarrow> string \<Rightarrow> string option \<Rightarrow> chat_message list" where
  "primaryMessages systemPrompt userPrompt screenshotBase64 =
     [\<lparr>role = ''system'', content = PlainContent systemPrompt\<rparr>,
      \<lparr>role = ''user'',
       content = PartsContent
         (TextPart (''User Request: '' @ trim userPrompt)
          # (if truthy screenshotBase64 then [imageUrl (the screenshotBase64)] else []))\<rparr>]"

definition textOnlyMessages :: "string \<Rightarrow> string \<Rightarrow> chat_message list" where
  "textOnlyMessages systemPrompt userPrompt =
     [\<lparr>role = ''system'', content = PlainContent systemPrompt\<rparr>,
      \<lparr>role = ''user'', content = PlainContent (''User Request: '' @ trim userPrompt)\<rparr>]"

definition isMultimodalError :: "js_error \<Rightarrow> bool" where
  "isMultimodalError error =
     (let errorMessage = (if truthy (message error) then toLowerCase (the (message error)) else [])
      in str_includes errorMessage ''vision''
         \<or> str_includes errorMessage ''image''
         \<or> str_includes errorMessage ''multimodal''
         \<or> str_includes errorMessage ''unsupported''
         \<or> str_includes errorMessage ''image_url''
         \<or> str_includes errorMessage ''400''
         \<or> str_includes errorMessage ''invalid''
         \<or> str_includes errorMessage ''not supported'')"

subsection \<open>Reading the token stream\<close>

definition dataLines :: "string \<Rightarrow> string list" where
  "dataLines chunk = filter (\<lambda>line. trim line \<noteq> []) (splitOn (CHR 0x0A) chunk)"

text \<open>
  The \<open>for\<close> loop of \<open>_processStream\<close> over the lines of one chunk. The accumulator is
  \<open>fullResponse\<close>, the state and the effects so far; the boolean says that the
  \<open>[DONE]\<close> frame was met, which returns from the function.
\<close>

fun processLines ::
  "(string \<Rightarrow> string option) \<Rightarrow> string list \<Rightarrow> string \<times> ask_state \<times> ask_effect list
     \<Rightarrow> bool \<times> string \<times> ask_state \<times> ask_effect list" where
  "processLines parse [] acc = (False, acc)"
| "processLines parse (line # ls) (fullResponse, st, eff) =
     (if prefix ''data: '' line then
        (let data = drop 6 line
         in if data = ''[DONE]'' then (True, fullResponse, st, eff)
            else
              (case parse data of
                 None \<Rightarrow> processLines parse ls (fullResponse, st, eff)
               | Some token \<Rightarrow>
                   if token \<noteq> [] then
                     (let fullResponse' = fullResponse @ token;
                          st' = st\<lparr>currentResponse := fullResponse'\<rparr>
                      in processLines parse ls (fullResponse', st', eff @ [BroadcastState st']))
                   else processLines parse ls (fullResponse, st, eff)))
      else processLines parse ls (fullResponse, st, eff))"

fun readLoop ::
  "(string \<Rightarrow> string option) \<Rightarrow> read_result list \<Rightarrow> string \<times> ask_state \<times> ask_effect list
     \<Rightarrow> js_error option \<times> string \<times> ask_state \<times> ask_effect list" where
  "readLoop parse [] acc = (None, acc)"
| "readLoop parse (ReadFails e # rs) acc = (Some e, acc)"
| "readLoop parse (ReadChunk chunk # rs) acc =
     (case processLines parse (dataLines chunk) acc of
        (True, acc') \<Rightarrow> (None, acc')
      | (False, acc') \<Rightarrow> readLoop parse rs acc')"

text \<open>
  \<open>_processStream\<close>. A failed read is caught: it is reported to the window unless the
  signal is aborted. The \<open>finally\<close> block runs on every path; a failure of the
  persistence call in it is caught and logged.
\<close>

definition processStream ::
  "ask_env \<Rightarrow> nat \<Rightarrow> read_result list \<Rightarrow> ask_state \<Rightarrow> ask_state \<times> ask_effect list" where
  "processStream env sessionId reads st =
     (let st1 = st\<lparr>isLoading := False, isStreaming := True\<rparr>;
          (streamError, fullResponse, st2, eff2) =
             readLoop (parseToken env) reads ([], st1, [BroadcastState st1]);
          eff3 = (case streamError of
                    None \<Rightarrow> eff2
                  | Some e \<Rightarrow>
                      if aborted env then eff2
                      else if windowAvailable env AtStreamError
                           then eff2 @ [WinSend (StreamError (message e))] else eff2);
          st3 = st2\<lparr>isStreaming := False, currentResponse := fullResponse\<rparr>
      in (st3, eff3 @ [BroadcastState st3]
               @ (if fullResponse \<noteq> [] then [AddAiMessage sessionId ''assistant'' fullResponse]
                  else [])))"

subsection \<open>The parallel spoken-style generation\<close>

definition conversationalFallback :: string where
  "conversationalFallback = ''I'' @ [CHR 0x27] @ ''ll help you with that.''"

text \<open>
  The loops of \<open>_generateConversationalResponseInParallel\<close>: here \<open>[DONE]\<close> breaks out
  of the loop over the lines of the chunk only, and reading goes on with the next chunk.
\<close>

fun convLines :: "(string \<Rightarrow> string option) \<Rightarrow> string list \<Rightarrow> string \<Rightarrow> string" where
  "convLines parse [] acc = acc"
| "convLines parse (line # ls) acc =
     (if prefix ''data: '' line then
        (let data = drop 6 line
         in if data = ''[DONE]'' then acc
            else
              (case parse data of
                 None \<Rightarrow> convLines parse ls acc
               | Some token \<Rightarrow>
                   convLines parse ls
                     (if token \<noteq> [] then acc @ token
                      else acc)))
      else convLines parse ls acc)"

fun convReadLoop ::
  "(string \<Rightarrow> string option) \<Rightarrow> read_result list \<Rightarrow> string \<Rightarrow> js_error + string" where
  "convReadLoop parse [] acc = Inr acc"
| "convReadLoop parse (ReadFails e # rs) acc = Inl e"
| "convReadLoop parse (ReadChunk chunk # rs) acc =
     convReadLoop parse rs (convLines parse (dataLines chunk) acc)"

definition conversationalMessages :: "ask_env \<Rightarrow> string \<Rightarrow> string option \<Rightarrow> chat_message list" where
  "conversationalMessages env userPrompt screenshotBase64 =
     [\<lparr>role = ''user'',
       content = PartsContent
         (TextPart (conversationalPrompt env userPrompt)
          # (if truthy screenshotBase64 then [imageUrl (the screenshotBase64)] else []))\<rparr>]"

text \<open>
  The value the promise resolves to, and the streaming call it makes. The whole body is in
  a \<open>try\<close> whose \<open>catch\<close> returns the fallback sentence, so the promise never rejects.
\<close>

definition generateConversationalResponseInParallel ::
  "string \<Rightarrow> string option \<Rightarrow> ask_env \<Rightarrow> string \<times> ask_effect list" where
  "generateConversationalResponseInParallel userPrompt screenshotBase64 env =
     (let messages = conversationalMessages env userPrompt screenshotBase64
      in (case convStreamChat env messages of
            Inl error \<Rightarrow> conversationalFallback
          | Inr reads \<Rightarrow>
              (case convReadLoop (parseToken env) reads [] of
                 Inl error \<Rightarrow> conversationalFallback
               | Inr text \<Rightarrow> trim text),
          [ConvStreamChat messages]))"

subsection \<open>One turn: sendMessage\<close>

text \<open>
  The block of \<open>sendMessage\<close> that awaits the parallel generation, after the primary
  stream was processed: a non-empty result is stored in the state, broadcast, and sent to
  the window for speech.
\<close>

definition handleConversational ::
  "ask_env \<Rightarrow> string option \<Rightarrow> ask_state \<Rightarrow> ask_state \<times> ask_effect list" where
  "handleConversational env conversationalPromise st =
     (case conversationalPromise of
        None \<Rightarrow> (st, [])
      | Some response \<Rightarrow>
          if response \<noteq> [] then
            (let st' = st\<lparr>conversationalResponse := response\<rparr>
             in (st', BroadcastState st'
                      # (if windowAvailable env AtConversational
                         then [WinSend (ConversationalResponse response
                                          (currentResponse st'))]
                         else [])))
          else (st, []))"

text \<open>
  The inner \<open>try\<close> with its \<open>catch (multimodalError)\<close>. \<open>Inl\<close> is an error thrown on
  to the outer \<open>catch\<close>, \<open>Inr\<close> a returned result.
\<close>

definition streamTurn ::
  "ask_env \<Rightarrow> nat \<Rightarrow> string \<Rightarrow> string \<Rightarrow> string option \<Rightarrow> string option \<Rightarrow> ask_state
     \<Rightarrow> (js_error + turn_result) \<times> ask_state \<times> ask_effect list" where
  "streamTurn env sessionId systemPrompt userPrompt screenshotBase64 conversationalPromise st =
     (let messages = primaryMessages systemPrompt userPrompt screenshotBase64
      in case streamChat env messages of
           Inr reads \<Rightarrow>
             if \<not> windowAvailable env AtPrimaryStream
             then (Inr (Failure (Some ''Ask window is not available.'')), st,
                   [StreamChat messages, ReaderCancel])
             else
               (let (st1, eff1) = processStream env sessionId reads st;
                    (st2, eff2) = handleConversational env conversationalPromise st1
                in (Inr Success, st2, StreamChat messages # eff1 @ eff2))
         | Inl multimodalError \<Rightarrow>
             if truthy screenshotBase64 \<and> isMultimodalError multimodalError then
               (let textOnly = textOnlyMessages systemPrompt userPrompt
                in case streamChat env textOnly of
                     Inl error \<Rightarrow> (Inl error, st, [StreamChat messages, StreamChat textOnly])
                   | Inr reads \<Rightarrow>
                       if \<not> windowAvailable env AtFallbackStream
                       then (Inr (Failure (Some ''Ask window is not available.'')), st,
                             [StreamChat messages, StreamChat textOnly, ReaderCancel])
                       else
                         (let (st1, eff1) = processStream env sessionId reads st
                          in (Inr Success, st1,
                              StreamChat messages # StreamChat textOnly # eff1)))
             else (Inl multimodalError, st, [StreamChat messages]))"

text \<open>The outer \<open>try\<close> block.\<close>

definition turnBody ::
  "string \<Rightarrow> string list \<Rightarrow> bool \<Rightarrow> ask_env \<Rightarrow> ask_state
     \<Rightarrow> (js_error + turn_result) \<times> ask_state \<times> ask_effect list" where
  "turnBody userPrompt conversationHistoryRaw isVoiceMode env st =
     (case getOrCreateActive env of
        Inl error \<Rightarrow> (Inl error, st, [])
      | Inr sessionId \<Rightarrow>
          (case addUserMessage env of
             Some error \<Rightarrow> (Inl error, st, [AddAiMessage sessionId ''user'' (trim userPrompt)])
           | None \<Rightarrow>
               if currentModelInfo env = None \<or> apiKey (the (currentModelInfo env)) = []
               then (Inl (JsError (Some ''AI model or API key not configured.'')), st,
                     [AddAiMessage sessionId ''user'' (trim userPrompt)])
               else
                 (let screenshotBase64 = screenshot env;
                      conv = (if isVoiceMode
                              then Some (generateConversationalResponseInParallel userPrompt
                                           screenshotBase64 env)
                              else None);
                      systemPrompt = getSystemPrompt env (formatConversationForPrompt conversationHistoryRaw);
                      (outcome, st', eff) =
                         streamTurn env sessionId systemPrompt userPrompt screenshotBase64
                           (map_option fst conv) st
                  in (outcome, st',
                      AddAiMessage sessionId ''user'' (trim userPrompt)
                      # (case conv of None \<Rightarrow> [] | Some c \<Rightarrow> snd c) @ eff))))"

definition sendMessage ::
  "string \<Rightarrow> string list \<Rightarrow> ask_env \<Rightarrow> ask_service \<Rightarrow> ask_service \<times> ask_effect list \<times> turn_result" where
  "sendMessage userPrompt conversationHistoryRaw env svc =
     (let st0 = (state svc)\<lparr>isLoading := True, isStreaming := False, currentQuestion := userPrompt,
                              currentResponse := [], showTextInput := False\<rparr>;
          eff0 = [RequestVisibility True, BroadcastState st0]
                 @ (if abortController svc then [AbortPrevious ''New request received.''] else []);
          isVoiceMode = (isListeningAsk st0 \<or> sttTranscription st0 \<noteq> []);
          (outcome, st, eff) = turnBody userPrompt conversationHistoryRaw isVoiceMode env st0
      in case outcome of
           Inr result \<Rightarrow> (\<lparr>state = st, abortController = True\<rparr>, eff0 @ eff, result)
         | Inl error \<Rightarrow>
             (let st' = st\<lparr>isLoading := False, isStreaming := False, showTextInput := True\<rparr>
              in (\<lparr>state = st', abortController = True\<rparr>,
                  eff0 @ eff @ [BroadcastState st']
                  @ (if windowAvailable env AtTurnError
                     then [WinSend (StreamError
                             (Some (if truthy (message error) then the (message error)
                                    else ''Unknown error occurred'')))]
                     else []),
                  Failure (message error))))"

text \<open>The abort reasons the orchestrator gives its own cancellations.\<close>

definition abortReasons :: "string list" where
  "abortReasons = [''New request received.'', ''Window closed by user'']"

definition streamChatCalls :: "ask_effect list \<Rightarrow> chat_message list list" where
  "streamChatCalls eff = concat (map (\<lambda>e. case e of StreamChat ms \<Rightarrow> [ms] | _ \<Rightarrow> []) eff)"

definition hasImage :: "chat_message list \<Rightarrow> bool" where
  "hasImage ms =
     list_ex (\<lambda>m. case content m of
                    PlainContent _ \<Rightarrow> False
                  | PartsContent ps \<Rightarrow>
                      list_ex (\<lambda>p. case p of ImageUrlPart _ \<Rightarrow> True | TextPart _ \<Rightarrow> False) ps) ms"

section \<open>PCM16 encoding and base64 transport (convertFloat32ToInt16, arrayBufferToBase64)\<close>

text \<open>
  Storing a number in an \<open>Int16Array\<close> truncates it towards zero and keeps the low 16
  bits. The products \<open>s * 0x8000\<close> and \<open>s * 0x7fff\<close> of a 32-bit float sample and a
  15- or 16-bit integer are exact in double precision, so real arithmetic gives the same
  element.
\<close>

definition toInt16 :: "real \<Rightarrow> 16 word" where
  "toInt16 r = word_of_int (if r < 0 then \<lceil>r\<rceil> else \<lfloor>r\<rfloor>)"

definition convertFloat32ToInt16 :: "real list \<Rightarrow> 16 word list" where
  "convertFloat32ToInt16 float32Array =
     map (\<lambda>x. let s = max (- 1) (min 1 x)
               in toInt16 (if s < 0 then s * 0x8000 else s * 0x7fff)) float32Array"

text \<open>
  \<open>pcm16.buffer\<close> seen through \<open>new Uint8Array(buffer)\<close>: two bytes for each element,
  low byte first (typed arrays use the byte order of the platform, little-endian on every
  platform the application runs on).
\<close>

definition int16Buffer :: "16 word list \<Rightarrow> 8 word list" where
  "int16Buffer ws = concat (map (\<lambda>w. [ucast w, ucast (drop_bit 8 w)]) ws)"

text \<open>
  \<open>btoa\<close> is the platform's base64 encoder (RFC 4648 alphabet, \<open>=\<close> padding) of a
  binary string, a string whose character codes are the bytes.
\<close>

definition b64char :: "nat \<Rightarrow> char" where
  "b64char n =
     (if n < 26 then char_of (65 + n)
      else if n < 52 then char_of (71 + n)
      else if n < 62 then char_of (n - 4)
      else if n = 62 then CHR ''+'' else CHR ''/'')"

fun btoa :: "string \<Rightarrow> string" where
  "btoa (a # b # c # rest) =
     (let x = (of_char a :: nat); y = (of_char b :: nat); z = (of_char c :: nat)
      in b64char (x div 4) # b64char ((x mod 4) * 16 + y div 16)
         # b64char ((y mod 16) * 4 + z div 64) # b64char (z mod 64) # btoa rest)"
| "btoa [a, b] =
     (let x = (of_char a :: nat); y = (of_char b :: nat)
      in [b64char (x div 4), b64char ((x mod 4) * 16 + y div 16), b64char ((y mod 16) * 4),
          CHR ''=''])"
| "btoa [a] =
     (let x = (of_char a :: nat)
      in [b64char (x div 4), b64char ((x mod 4) * 16), CHR ''='', CHR ''=''])"
| "btoa [] = []"

definition arrayBufferToBase64 :: "8 word list \<Rightarrow> string" where
  "arrayBufferToBase64 buffer = btoa (map (\<lambda>byte. char_of (unat byte)) buffer)"

text \<open>
  Modelled from the spec: the decoding half of the round trip (base64 back to bytes, bytes
  back to 16-bit samples) is not in the sources, which only encode. \<open>atob\<close> inverts the
  RFC 4648 encoding and rejects a string that is not padded base64; \<open>bytesToInt16\<close>
  reads the bytes as little-endian signed 16-bit samples.
\<close>

definition b64val :: "char \<Rightarrow> nat option" where
  "b64val c =
     (let n = (of_char c :: nat)
      in if 65 \<le> n \<and> n \<le> 90 then Some (n - 65)
         else if 97 \<le> n \<and> n \<le> 122 then Some (n - 71)
         else if 48 \<le> n \<and> n \<le> 57 then Some (n + 4)
         else if c = CHR ''+'' then Some 62
         else if c = CHR ''/'' then Some 63
         else None)"

text \<open>
  Modelled from the spec: the base64 decoder of the receiving side, which the sources do
  not contain. It reads groups of four characters; only the last group may be padded.
\<close>

fun atob :: "string \<Rightarrow> string option" where
  "atob [] = Some []"
| "atob (p # q # r # s # rest) =
     (if rest = [] \<and> r = CHR ''='' \<and> s = CHR ''='' then
        (case (b64val p, b64val q) of
           (Some a, Some b) \<Rightarrow> Some [char_of (a * 4 + b div 16)]
         | _ \<Rightarrow> None)
      else if rest = [] \<and> s = CHR ''='' then
        (case (b64val p, b64val q, b64val r) of
           (Some a, Some b, Some c) \<Rightarrow>
             Some [char_of (a * 4 + b div 16), char_of ((b mod 16) * 16 + c div 4)]
         | _ \<Rightarrow> None)
      else
        (case (b64val p, b64val q, b64val r, b64val s) of
           (Some a, Some b, Some c, Some d) \<Rightarrow>
             (case atob rest of
                Some t \<Rightarrow>
                  Some (char_of (a * 4 + b div 16) # char_of ((b mod 16) * 16 + c div 4)
                        # char_of ((c mod 4) * 64 + d) # t)
              | None \<Rightarrow> None)
         | _ \<Rightarrow> None))"
| "atob _ = None"

text \<open>
  Modelled from the spec: the receiver's view of the decoded bytes as 16-bit samples, low
  byte first; an odd number of bytes is rejected. Not in the sources.
\<close>

fun bytesToInt16 :: "string \<Rightarrow> 16 word list option" where
  "bytesToInt16 [] = Some []"
| "bytesToInt16 (lo # hi # rest) =
     (case bytesToInt16 rest of
        Some ws \<Rightarrow> Some (word_of_nat (of_char lo + 256 * of_char hi) # ws)
      | None \<Rightarrow> None)"
| "bytesToInt16 [_] = None"

text \<open>
  Modelled from the spec: the decoding half of the round trip, base64 text to samples. Not
  in the sources.
\<close>

definition decodePcm16 :: "string \<Rightarrow> 16 word list option" where
  "decodePcm16 b64 = (case atob b64 of Some bytes \<Rightarrow> bytesToInt16 bytes | None \<Rightarrow> None)"

text \<open>The factor the encoder scales a clamped sample by: one quantization step is its inverse.\<close>

definition pcmScale :: "real \<Rightarrow> real" where
  "pcmScale x = (if x < 0 then 0x8000 else 0x7fff)"

section \<open>Predicates used in the statements, and example inputs\<close>

definition segments_long_enough :: "real list list \<Rightarrow> bool" where
  "segments_long_enough segs = (\<forall>seg \<in> set segs. MIN_SEGMENT_DURATION \<le> segmentDuration seg)"

text \<open>A text contains one of the noise patterns somewhere (in particular, equals one).\<close>

definition hasNoise :: "string \<Rightarrow> bool" where
  "hasNoise t = (\<exists>p \<in> set noisePatterns. \<exists>a b. t = a @ p @ b)"

text \<open>
  A service with an open batch-transcript (whisper) session and every callback set, and a
  raw message that carries only a \<open>text\<close> field.
\<close>

definition whisper_service :: stt_service where
  "whisper_service =
     \<lparr> sttSession = True, isListening = True, currentTranscription = [],
       modelInfo = Some \<lparr>provider = ''whisper'', model = ''whisper-1'', apiKey = ''key''\<rparr>,
       onTranscriptionUpdate = True, onTranscriptionComplete = True,
       onStatusUpdate = True, onError = True \<rparr>"

definition text_message :: "string \<Rightarrow> stt_message" where
  "text_message t =
     \<lparr> msg_text = Some t, channelTranscript = None, is_final = False, turnComplete = False,
       inputTranscriptionText = None, msg_type = None, transcript = None, delta = None,
       altTranscript = None, msg_error = None \<rparr>"

text \<open>A service between two utterances: session open, not listening, text accumulated.\<close>

definition paused_service :: stt_service where
  "paused_service = whisper_service\<lparr>isListening := False, currentTranscription := ''hello''\<rparr>"

text \<open>
  The ranges the level meter keeps: the smoothed level and every history entry lie in
  [0, 1], and the history holds at most \<open>VOICE_LEVEL_HISTORY_SIZE\<close> entries.
\<close>

definition level_inv :: "capture \<Rightarrow> bool" where
  "level_inv s =
     (0 \<le> smoothedVoiceLevel s \<and> smoothedVoiceLevel s \<le> 1
      \<and> list_all (\<lambda>x. 0 \<le> x \<and> x \<le> 1) (voiceLevelHistory s)
      \<and> length (voiceLevelHistory s) \<le> VOICE_LEVEL_HISTORY_SIZE)"

text \<open>
  Names for parts of \<open>sendMessage\<close> that the statements about a turn refer to: the
  system prompt of the turn, the state the turn starts from, the voice-mode test, the
  value the awaited parallel generation resolves to (when one was started), and the
  failure of the parallel generation's streaming call (the call itself rejects, or one of
  its reads does).
\<close>

definition turnSystemPrompt :: "ask_env \<Rightarrow> string list \<Rightarrow> string" where
  "turnSystemPrompt env raw = getSystemPrompt env (formatConversationForPrompt raw)"

definition turnStart :: "ask_service \<Rightarrow> string \<Rightarrow> ask_state" where
  "turnStart svc userPrompt =
     (state svc)\<lparr>isLoading := True, isStreaming := False, currentQuestion := userPrompt,
                  currentResponse := [], showTextInput := False\<rparr>"

definition voiceMode :: "ask_service \<Rightarrow> bool" where
  "voiceMode svc = (isListeningAsk (state svc) \<or> sttTranscription (state svc) \<noteq> [])"

definition awaitedConversational :: "ask_service \<Rightarrow> string \<Rightarrow> ask_env \<Rightarrow> string option" where
  "awaitedConversational svc userPrompt env =
     (if voiceMode svc
      then Some (fst (generateConversationalResponseInParallel userPrompt (screenshot env) env))
      else None)"


text \<open>
  The error, if any, that reading an opened stream ends with when \<open>_processStream\<close>
  starts from state \<open>st\<close>, and whether a list of effects holds a conversational
  response sent to the window for speech.
\<close>

definition readFailure :: "ask_env \<Rightarrow> read_result list \<Rightarrow> ask_state \<Rightarrow> js_error option" where
  "readFailure env reads st =
     fst (readLoop (parseToken env) reads
            ([], st\<lparr>isLoading := False, isStreaming := True\<rparr>,
             [BroadcastState (st\<lparr>isLoading := False, isStreaming := True\<rparr>)]))"


text \<open>
  Example collaborators. In \<open>demo_env\<close> a screenshot is captured, the model endpoint
  rejects every message list that carries an image and streams \<open>Hello\<close> otherwise, the
  parallel generation's call fails, a data frame is its own token, and the window is alive.
  \<open>voice_env\<close> is the same without a screenshot; in \<open>failing_env\<close> there is no
  screenshot and the endpoint rejects every call for a reason unrelated to images.
\<close>

definition demo_env :: ask_env where
  "demo_env =
     \<lparr> getOrCreateActive = Inr 7, addUserMessage = None, addAssistantMessage = None,
       currentModelInfo = Some \<lparr>provider = ''openai'', model = ''gpt-4o'', apiKey = ''key''\<rparr>,
       screenshot = Some ''QUJD'',
       getSystemPrompt = (\<lambda>history. ''system: '' @ history),
       conversationalPrompt = (\<lambda>userPrompt. ''say: '' @ userPrompt),
       streamChat = (\<lambda>ms. if hasImage ms then Inl (JsError (Some ''400 Unsupported image input''))
                          else Inr [ReadChunk ''data: Hello'', ReadChunk ''data: [DONE]'']),
       convStreamChat = (\<lambda>ms. Inl (JsError (Some ''socket hang up''))),
       parseToken = Some,
       windowAvailable = (\<lambda>c. True),
       aborted = False \<rparr>"


definition failing_env :: ask_env where
  "failing_env =
     demo_env\<lparr>screenshot := None, streamChat := (\<lambda>ms. Inl (JsError (Some ''rate limit exceeded'')))\<rparr>"

text \<open>
  \<open>read_error_env\<close> is \<open>demo_env\<close> with an endpoint that opens a stream for every
  message list, delivers one frame and then fails the next read with a message about
  images.
\<close>

definition read_error_env :: ask_env where
  "read_error_env =
     demo_env\<lparr>streamChat :=
       (\<lambda>ms. Inr [ReadChunk ''data: Hel'',
                   ReadFails (JsError (Some ''400 Unsupported image input''))])\<rparr>"

definition demo_service :: ask_service where
  "demo_service =
     \<lparr> state = \<lparr> isVisible = True, isLoading = False, isStreaming = False, currentQuestion = [],
                 currentResponse = [], conversationalResponse = [], showTextInput = True,
                 isListeningAsk = True, sttTranscription = [] \<rparr>,
       abortController = False \<rparr>"

section \<open>Properties of the segmentation engine\<close>

lemmas capture_consts =
  SAMPLE_RATE_def MIN_SEGMENT_DURATION_def MAX_SEGMENT_DURATION_def
  VOICE_THRESHOLD_FRAMES_def SILENCE_THRESHOLD_FRAMES_def

lemma endVoiceSegment_long_enough [simp]:
  "segments_long_enough (sentSegments (endVoiceSegment s)) = segments_long_enough (sentSegments s)"
  by (auto simp: segments_long_enough_def endVoiceSegment_def Let_def)

lemma handleVoiceSegment_long_enough [simp]:
  "segments_long_enough (sentSegments (handleVoiceSegment c v l s)) =
   segments_long_enough (sentSegments s)"
  by (simp add: handleVoiceSegment_def Let_def)

lemma feed_long_enough [simp]:
  "segments_long_enough (sentSegments (feed fs s)) = segments_long_enough (sentSegments s)"
  by (induction fs s rule: feed.induct) simp_all

lemma stopCapture_long_enough:
  "segments_long_enough (sentSegments (stopCapture_segment s)) = segments_long_enough (sentSegments s)"
  by (simp add: stopCapture_segment_def Let_def)

lemma segmentDuration_min_iff:
  "MIN_SEGMENT_DURATION \<le> segmentDuration seg \<longleftrightarrow> 12000 \<le> length seg"
  by (simp add: MIN_SEGMENT_DURATION_def segmentDuration_def SAMPLE_RATE_def field_simps)

lemma feed_append: "feed (fs @ gs) s = feed gs (feed fs s)"
  by (induction fs s rule: feed.induct) simp_all

text \<open>
  Claim C4. Whatever frames the capture callback feeds to the engine, starting from a
  fresh capture object, and also when capture is stopped afterwards, every segment handed
  to \<open>sendVoiceSegmentToSTT\<close> lasts at least \<open>MIN_SEGMENT_DURATION\<close> (0.5 s, that is
  12000 samples at 24 kHz); a shorter one is discarded by \<open>endVoiceSegment\<close>.
\<close>

theorem emitted_segments_meet_minimum_duration:
  "\<forall>seg \<in> set (sentSegments (stopCapture_segment (feed fs initial_capture)))
          \<union> set (sentSegments (feed fs initial_capture)).
     MIN_SEGMENT_DURATION \<le> segmentDuration seg \<and> 12000 \<le> length seg"
proof -
  have start: "segments_long_enough (sentSegments initial_capture)"
    by (simp add: segments_long_enough_def initial_capture_def)
  then have run: "segments_long_enough (sentSegments (feed fs initial_capture))"
    by simp
  then have "segments_long_enough (sentSegments (stopCapture_segment (feed fs initial_capture)))"
    by (simp add: stopCapture_long_enough)
  with run show ?thesis
    by (auto simp: segments_long_enough_def segmentDuration_min_iff)
qed

theorem emitted_segments_meet_minimum_duration_witness:
  "sentSegments (feed [(replicate 6000 0.5, True, 1), (replicate 6000 0.5, True, 1),
                       (replicate 2400 0, False, 0), (replicate 2400 0, False, 0),
                       (replicate 2400 0, False, 0), (replicate 2400 0, False, 0),
                       (replicate 2400 0, False, 0)] initial_capture)
     = [replicate 6000 0.5 @ replicate 6000 0.5 @ replicate 2400 0 @ replicate 2400 0
        @ replicate 2400 0 @ replicate 2400 0 @ replicate 2400 0]
   \<and> MIN_SEGMENT_DURATION
       \<le> segmentDuration (replicate 6000 0.5 @ replicate 6000 0.5 @ replicate 2400 0
            @ replicate 2400 0 @ replicate 2400 0 @ replicate 2400 0 @ replicate 2400 0)"
  using emitted_segments_meet_minimum_duration
    [of "[(replicate 6000 0.5, True, 1), (replicate 6000 0.5, True, 1),
          (replicate 2400 0, False, 0), (replicate 2400 0, False, 0),
          (replicate 2400 0, False, 0), (replicate 2400 0, False, 0),
          (replicate 2400 0, False, 0)]"]
  by (simp add: initial_capture_def handleVoiceSegment_def endVoiceSegment_def Let_def
      segmentDuration_def capture_consts)

lemma voice_step_below_threshold:
  "\<not> isCurrentlyVoice s \<Longrightarrow> Suc (voiceFrameCount s) < VOICE_THRESHOLD_FRAMES \<Longrightarrow>
   handleVoiceSegment c True l s =
     s\<lparr>currentSegment := currentSegment s @ c, uiUpdates := uiUpdates s @ [(True, l)],
       voiceFrameCount := Suc (voiceFrameCount s), silenceFrameCount := 0\<rparr>"
  by (simp add: handleVoiceSegment_def Let_def endVoiceSegment_def)

lemma silence_step_idle:
  "\<not> isCurrentlyVoice s \<Longrightarrow>
   handleVoiceSegment c False l s =
     s\<lparr>currentSegment := currentSegment s @ c, uiUpdates := uiUpdates s @ [(False, l)],
       silenceFrameCount := Suc (silenceFrameCount s), voiceFrameCount := 0\<rparr>"
  by (simp add: handleVoiceSegment_def Let_def endVoiceSegment_def)

lemma short_voiced_run:
  "\<not> isCurrentlyVoice s \<Longrightarrow> voiceFrameCount s + length run < VOICE_THRESHOLD_FRAMES \<Longrightarrow>
   \<forall>f \<in> set run. fst (snd f) \<Longrightarrow>
   \<not> isCurrentlyVoice (feed run s)
     \<and> voiceFrameCount (feed run s) = voiceFrameCount s + length run
     \<and> sentSegments (feed run s) = sentSegments s"
proof (induction run arbitrary: s)
  case Nil
  then show ?case by simp
next
  case (Cons f run)
  obtain c v l where f: "f = (c, v, l)" by (cases f)
  with Cons.prems have v: "v" by simp
  let ?s = "handleVoiceSegment c True l s"
  have step: "?s = s\<lparr>currentSegment := currentSegment s @ c, uiUpdates := uiUpdates s @ [(True, l)],
       voiceFrameCount := Suc (voiceFrameCount s), silenceFrameCount := 0\<rparr>"
    using Cons.prems by (intro voice_step_below_threshold) simp_all
  have "\<not> isCurrentlyVoice (feed run ?s)
     \<and> voiceFrameCount (feed run ?s) = voiceFrameCount ?s + length run
     \<and> sentSegments (feed run ?s) = sentSegments ?s"
    using Cons.prems by (intro Cons.IH) (simp_all add: step)
  then show ?case by (simp add: f v step)
qed

text \<open>
  Claim C9. From the idle state (no open voice segment, voice-frame count 0), a run of
  voiced frames shorter than \<open>VOICE_THRESHOLD_FRAMES\<close> followed by one no-voice frame
  starts no segment: \<open>isCurrentlyVoice\<close> is false after every frame of the run and after
  the no-voice frame, that frame resets the voice-frame count to 0, and nothing is sent.
\<close>

theorem short_voice_run_starts_no_segment:
  assumes "\<not> isCurrentlyVoice s" and "voiceFrameCount s = 0"
    and "length run < VOICE_THRESHOLD_FRAMES" and "\<forall>f \<in> set run. fst (snd f)"
  shows "(\<forall>k \<le> length run. \<not> isCurrentlyVoice (feed (take k run) s))
     \<and> \<not> isCurrentlyVoice (feed (run @ [(c, False, l)]) s)
     \<and> voiceFrameCount (feed (run @ [(c, False, l)]) s) = 0
     \<and> sentSegments (feed (run @ [(c, False, l)]) s) = sentSegments s"
proof -
  have pre: "\<not> isCurrentlyVoice (feed (take k run) s)" for k
  proof -
    have "voiceFrameCount s + length (take k run) < VOICE_THRESHOLD_FRAMES"
      using assms(2,3) by simp
    moreover have "\<forall>f \<in> set (take k run). fst (snd f)"
      using assms(4) by (auto dest: in_set_takeD)
    ultimately show ?thesis
      using short_voiced_run [OF assms(1), of "take k run"] by blast
  qed
  have run: "\<not> isCurrentlyVoice (feed run s)" "sentSegments (feed run s) = sentSegments s"
    using short_voiced_run [OF assms(1), of run] assms(2,3,4) by simp_all
  have last: "feed (run @ [(c, False, l)]) s = handleVoiceSegment c False l (feed run s)"
    by (simp add: feed_append)
  show ?thesis
    using pre run by (simp add: last silence_step_idle)
qed

theorem short_voice_run_starts_no_segment_witness:
  "\<not> isCurrentlyVoice initial_capture \<and> voiceFrameCount initial_capture = 0
   \<and> length [(replicate 2400 (0.5::real), True, 1::real)] < VOICE_THRESHOLD_FRAMES
   \<and> \<not> isCurrentlyVoice (feed [(replicate 2400 0.5, True, 1)] initial_capture)
   \<and> \<not> isCurrentlyVoice
         (feed ([(replicate 2400 0.5, True, 1)] @ [(replicate 2400 0, False, 0)]) initial_capture)
   \<and> voiceFrameCount
         (feed ([(replicate 2400 0.5, True, 1)] @ [(replicate 2400 0, False, 0)]) initial_capture) = 0
   \<and> sentSegments
         (feed ([(replicate 2400 0.5, True, 1)] @ [(replicate 2400 0, False, 0)]) initial_capture) = []"
proof -
  have h1: "\<not> isCurrentlyVoice initial_capture" by (simp add: initial_capture_def)
  have h2: "voiceFrameCount initial_capture = 0" by (simp add: initial_capture_def)
  have h3: "length [(replicate 2400 (0.5::real), True, 1::real)] < VOICE_THRESHOLD_FRAMES"
    by (simp add: VOICE_THRESHOLD_FRAMES_def)
  have h4: "\<forall>f \<in> set [(replicate 2400 (0.5::real), True, 1::real)]. fst (snd f)" by simp
  have sent: "sentSegments initial_capture = []" by (simp add: initial_capture_def)
  from short_voice_run_starts_no_segment [OF h1 h2 h3 h4, of "replicate 2400 0" 0]
  have "(\<forall>k \<le> 1. \<not> isCurrentlyVoice (feed (take k [(replicate 2400 0.5, True, 1)]) initial_capture))
     \<and> \<not> isCurrentlyVoice
           (feed ([(replicate 2400 0.5, True, 1)] @ [(replicate 2400 0, False, 0)]) initial_capture)
     \<and> voiceFrameCount
           (feed ([(replicate 2400 0.5, True, 1)] @ [(replicate 2400 0, False, 0)]) initial_capture) = 0
     \<and> sentSegments
           (feed ([(replicate 2400 0.5, True, 1)] @ [(replicate 2400 0, False, 0)]) initial_capture)
         = sentSegments initial_capture"
    by simp
  moreover from this have "\<not> isCurrentlyVoice (feed (take 1 [(replicate 2400 0.5, True, 1)]) initial_capture)"
    by blast
  ultimately show ?thesis using h1 h2 h3 sent by simp
qed

text \<open>
  Claim C5. While a voice segment is open, a voiced frame that brings the buffered
  duration to \<open>MAX_SEGMENT_DURATION\<close> (30 s) or more ends the segment in that very call:
  exactly one segment, the whole buffer with this frame, is sent. The buffer restarts
  empty, so the next voiced frame is the first content of the new segment, and nothing
  more is sent by it; with the start threshold of two frames the engine is in the
  open-segment state again at the second voiced frame after the cut, holding both frames.
\<close>

theorem force_finalize_at_cap:
  assumes "isCurrentlyVoice s"
    and "MAX_SEGMENT_DURATION \<le> segmentDuration (currentSegment s @ chunk)"
  shows "sentSegments (handleVoiceSegment chunk True lvl s) = sentSegments s @ [currentSegment s @ chunk]
     \<and> currentSegment (handleVoiceSegment chunk True lvl s) = []
     \<and> currentSegment (handleVoiceSegment c2 True l2 (handleVoiceSegment chunk True lvl s)) = c2
     \<and> sentSegments (handleVoiceSegment c2 True l2 (handleVoiceSegment chunk True lvl s))
         = sentSegments s @ [currentSegment s @ chunk]
     \<and> (segmentDuration (c2 @ c3) < MAX_SEGMENT_DURATION \<longrightarrow>
          isCurrentlyVoice (feed [(chunk, True, lvl), (c2, True, l2), (c3, True, l3)] s)
          \<and> currentSegment (feed [(chunk, True, lvl), (c2, True, l2), (c3, True, l3)] s) = c2 @ c3)"
  using assms
  by (simp add: handleVoiceSegment_def endVoiceSegment_def Let_def segmentDuration_def
      capture_consts field_simps)

theorem force_finalize_at_cap_witness:
  "isCurrentlyVoice (initial_capture\<lparr>isCurrentlyVoice := True, currentSegment := replicate 719000 0.5\<rparr>)
   \<and> MAX_SEGMENT_DURATION \<le> segmentDuration (replicate 719000 0.5 @ replicate 2400 0.5)
   \<and> segmentDuration (replicate 2400 0.25 @ replicate 2400 0.125) < MAX_SEGMENT_DURATION
   \<and> sentSegments (handleVoiceSegment (replicate 2400 0.5) True 1
         (initial_capture\<lparr>isCurrentlyVoice := True, currentSegment := replicate 719000 0.5\<rparr>))
       = [replicate 719000 0.5 @ replicate 2400 0.5]
   \<and> isCurrentlyVoice (feed [(replicate 2400 0.5, True, 1), (replicate 2400 0.25, True, 1),
                               (replicate 2400 0.125, True, 1)]
         (initial_capture\<lparr>isCurrentlyVoice := True, currentSegment := replicate 719000 0.5\<rparr>))
   \<and> currentSegment (feed [(replicate 2400 0.5, True, 1), (replicate 2400 0.25, True, 1),
                             (replicate 2400 0.125, True, 1)]
         (initial_capture\<lparr>isCurrentlyVoice := True, currentSegment := replicate 719000 0.5\<rparr>))
       = replicate 2400 0.25 @ replicate 2400 0.125"
proof -
  let ?s = "initial_capture\<lparr>isCurrentlyVoice := True, currentSegment := replicate 719000 0.5\<rparr>"
  have h1: "isCurrentlyVoice ?s" by simp
  have h2: "MAX_SEGMENT_DURATION \<le> segmentDuration (currentSegment ?s @ replicate 2400 0.5)"
    by (simp add: segmentDuration_def capture_consts)
  have h3: "segmentDuration (replicate 2400 0.25 @ replicate 2400 0.125) < MAX_SEGMENT_DURATION"
    by (simp add: segmentDuration_def capture_consts)
  have s0: "sentSegments initial_capture = []"
    by (simp add: initial_capture_def)
  from force_finalize_at_cap [OF h1 h2, of 1 "replicate 2400 0.25" 1 "replicate 2400 0.125" 1] h3
  show ?thesis using h1 h2 by (simp add: s0)
qed

section \<open>Properties of the speech-to-text normalizer\<close>

lemma str_includes_iff: "str_includes s p \<longleftrightarrow> (\<exists>a b. s = a @ p @ b)"
proof (induction s)
  case Nil
  then show ?case by auto
next
  case (Cons c cs)
  show ?case
  proof
    assume "str_includes (c # cs) p"
    then consider "prefix p (c # cs)" | "str_includes cs p" by auto
    then show "\<exists>a b. c # cs = a @ p @ b"
    proof cases
      case 1
      then obtain b where "c # cs = p @ b" by (auto simp: prefix_def)
      then have "c # cs = [] @ p @ b" by simp
      then show ?thesis by blast
    next
      case 2
      with Cons.IH obtain a b where "cs = a @ p @ b" by blast
      then have "c # cs = (c # a) @ p @ b" by simp
      then show ?thesis by blast
    qed
  next
    assume "\<exists>a b. c # cs = a @ p @ b"
    then obtain a b where ab: "c # cs = a @ p @ b" by blast
    show "str_includes (c # cs) p"
    proof (cases a)
      case Nil
      with ab have "prefix p (c # cs)" by (simp add: prefix_def)
      then show ?thesis by simp
    next
      case (Cons x a')
      with ab have "cs = a' @ p @ b" by simp
      with Cons.IH have "str_includes cs p" by blast
      then show ?thesis by simp
    qed
  qed
qed

lemma raisesFinal_append: "raisesFinal (xs @ ys) = (raisesFinal xs \<or> raisesFinal ys)"
  by (simp add: raisesFinal_def list_ex_iff) blast

lemma raisesFinal_messageErrorCheck:
  "raisesFinal (snd (messageErrorCheck m (s, evs))) = raisesFinal evs"
  by (simp add: messageErrorCheck_def raisesFinal_append emitError_def) (simp add: raisesFinal_def)

lemma fst_messageErrorCheck: "fst (messageErrorCheck m r) = fst r"
  by (simp add: messageErrorCheck_def split: prod.splits)

lemma set_messageErrorCheck: "set evs \<subseteq> set (snd (messageErrorCheck m (s, evs)))"
  by (simp add: messageErrorCheck_def)

lemma isNoise_iff:
  "list_ex (\<lambda>pattern. str_includes t pattern \<or> t = pattern) noisePatterns = hasNoise t"
proof -
  have "(str_includes t p \<or> t = p) = (\<exists>a b. t = a @ p @ b)" for p
  proof -
    have "t = p \<Longrightarrow> t = [] @ p @ []" by simp
    then show ?thesis unfolding str_includes_iff by blast
  qed
  then show ?thesis by (simp add: list_ex_iff hasNoise_def)
qed

lemma trim_nonempty: "trim t \<noteq> [] \<Longrightarrow> t \<noteq> []"
  by (auto simp: trim_def)

text \<open>
  Claim C1, as the code has it. In the batch-transcript (whisper) arm a message whose
  trimmed text contains a noise pattern anywhere, so also one that equals a pattern, raises
  no \<open>Final\<close> event and leaves the service unchanged. A message whose trimmed text
  contains no noise pattern and is longer than 2 characters raises the \<open>Final\<close> event
  with the trimmed text (the completion callback being set) and stores that text.
\<close>

theorem whisper_noise_filter:
  assumes "modelInfo s = Some mi" and "provider mi = ''whisper''" and "msg_text m = Some t"
  shows "(hasNoise (trim t) \<longrightarrow>
            \<not> raisesFinal (snd (handleMessage m s)) \<and> fst (handleMessage m s) = s)
       \<and> (\<not> hasNoise (trim t) \<and> length (trim t) > 2 \<and> onTranscriptionComplete s \<longrightarrow>
            raisesFinal (snd (handleMessage m s))
            \<and> OnTranscriptionComplete (trim t) \<in> set (snd (handleMessage m s))
            \<and> currentTranscription (fst (handleMessage m s)) = trim t)"
proof (intro conjI impI)
  assume n: "hasNoise (trim t)"
  have hm: "handleMessage m s = messageErrorCheck m (s, [])"
    using assms n by (simp add: handleMessage_def isNoise_iff Let_def)
  show "\<not> raisesFinal (snd (handleMessage m s))"
    unfolding hm raisesFinal_messageErrorCheck by (simp add: raisesFinal_def)
  show "fst (handleMessage m s) = s"
    unfolding hm by (simp add: fst_messageErrorCheck)
next
  assume a: "\<not> hasNoise (trim t) \<and> length (trim t) > 2 \<and> onTranscriptionComplete s"
  then have ne1: "trim t \<noteq> []" by auto
  then have ne2: "t \<noteq> []" by (rule trim_nonempty)
  have hm: "handleMessage m s = messageErrorCheck m (s\<lparr>currentTranscription := trim t\<rparr>,
       emitUpdate s (trim t) True @ [OnTranscriptionComplete (trim t)])"
    using assms a ne1 ne2
    by (simp add: handleMessage_def isNoise_iff Let_def truthy_def emitComplete_def)
  show "raisesFinal (snd (handleMessage m s))"
    unfolding hm raisesFinal_messageErrorCheck
    by (simp add: raisesFinal_append) (simp add: raisesFinal_def)
  show "OnTranscriptionComplete (trim t) \<in> set (snd (handleMessage m s))"
    unfolding hm using set_messageErrorCheck by fastforce
  show "currentTranscription (fst (handleMessage m s)) = trim t"
    unfolding hm by (simp add: fst_messageErrorCheck)
qed

theorem whisper_noise_filter_witness:
  "hasNoise (trim ''[MUSIC]'')
   \<and> \<not> raisesFinal (snd (handleMessage (text_message ''[MUSIC]'') whisper_service))
   \<and> \<not> hasNoise (trim '' hello '') \<and> length (trim '' hello '') > 2
   \<and> raisesFinal (snd (handleMessage (text_message '' hello '') whisper_service))
   \<and> currentTranscription (fst (handleMessage (text_message '' hello '') whisper_service)) = ''hello''"
proof -
  have a1: "modelInfo whisper_service
              = Some \<lparr>provider = ''whisper'', model = ''whisper-1'', apiKey = ''key''\<rparr>"
    by (simp add: whisper_service_def)
  have a2: "provider \<lparr>provider = ''whisper'', model = ''whisper-1'', apiKey = ''key''\<rparr> = ''whisper''"
    by simp
  have t1: "trim ''[MUSIC]'' = ''[MUSIC]''" and t2: "trim '' hello '' = ''hello''"
    by (simp_all add: trim_def isWhiteSpace_def)
  have n1: "hasNoise (trim ''[MUSIC]'')"
    unfolding t1 isNoise_iff [symmetric] by (simp add: noisePatterns_def)
  have n2: "\<not> hasNoise (trim '' hello '')"
    unfolding t2 isNoise_iff [symmetric] by (simp add: noisePatterns_def)
  have cb: "onTranscriptionComplete whisper_service" by (simp add: whisper_service_def)
  have m1: "msg_text (text_message ''[MUSIC]'') = Some ''[MUSIC]''"
    and m2: "msg_text (text_message '' hello '') = Some '' hello ''"
    by (simp_all add: text_message_def)
  from whisper_noise_filter [OF a1 a2 m1] n1
  have r1: "\<not> raisesFinal (snd (handleMessage (text_message ''[MUSIC]'') whisper_service))"
    by blast
  from whisper_noise_filter [OF a1 a2 m2] n2 cb
  have r2: "raisesFinal (snd (handleMessage (text_message '' hello '') whisper_service))
     \<and> currentTranscription (fst (handleMessage (text_message '' hello '') whisper_service))
         = trim '' hello ''"
    by (simp add: t2)
  from n1 r1 n2 r2 show ?thesis by (simp add: t2)
qed

text \<open>
  The claim as the specification words it fails: the text \<open>[MUSIC]ab\<close> is a noise token
  followed by two ordinary characters, it is longer than the length floor of 2, and it is
  filtered all the same, because the filter tests containment.
\<close>

theorem whisper_token_plus_two_chars_counterexample:
  "trim ''[MUSIC]ab'' = ''[MUSIC]'' @ ''ab''
   \<and> length (trim ''[MUSIC]ab'') > 2
   \<and> \<not> raisesFinal (snd (handleMessage (text_message ''[MUSIC]ab'') whisper_service))
   \<and> snd (handleMessage (text_message ''[MUSIC]ab'') whisper_service) = []"
  by (simp add: handleMessage_def whisper_service_def text_message_def truthy_def
      trim_def isWhiteSpace_def noisePatterns_def messageErrorCheck_def Let_def raisesFinal_def)

text \<open>
  Claim C3, as the code has it. Every call of \<open>closeSession\<close> emits the disconnected
  status once when a status callback is set and never otherwise, so two calls in succession
  emit it twice or not at all. The second call closes no adapter and leaves the fields as
  the first call left them; \<open>closeSession\<close> has no throwing path, a rejection of the
  adapter's \<open>close()\<close> being caught and logged.
\<close>

theorem closeSession_twice:
  "countDisconnected (snd (closeSession r s)) = (if onStatusUpdate s then 1 else 0)
   \<and> countDisconnected (snd (closeSession r s) @ snd (closeSession r2 (fst (closeSession r s))))
        = (if onStatusUpdate s then 2 else 0)
   \<and> fst (closeSession r2 (fst (closeSession r s))) = fst (closeSession r s)
   \<and> SessionClose \<notin> set (snd (closeSession r2 (fst (closeSession r s))))"
  by (simp add: closeSession_def countDisconnected_def emitStatus_def Let_def
      split: prod.splits option.splits)

theorem closeSession_twice_witness:
  "countDisconnected (snd (closeSession None whisper_service)) = 1
   \<and> fst (closeSession None (fst (closeSession None whisper_service)))
       = fst (closeSession None whisper_service)
   \<and> SessionClose \<notin> set (snd (closeSession None (fst (closeSession None whisper_service))))"
  using closeSession_twice [of None whisper_service None]
  by (simp add: whisper_service_def)

theorem closeSession_emits_twice_counterexample:
  "countDisconnected
     (snd (closeSession None whisper_service)
      @ snd (closeSession None (fst (closeSession None whisper_service)))) = 2"
  by (simp add: closeSession_def countDisconnected_def emitStatus_def Let_def whisper_service_def)

lemma handleMessage_keeps_nonempty:
  assumes ne: "currentTranscription s \<noteq> []"
  shows "currentTranscription (fst (handleMessage m s)) \<noteq> []"
proof (cases "modelInfo s")
  case None
  then show ?thesis using ne by (simp add: handleMessage_def)
next
  case (Some mi)
  consider (whisper) "provider mi = ''whisper''"
    | (deepgram) "provider mi \<noteq> ''whisper''" "provider mi = ''deepgram''"
    | (gemini) "provider mi \<noteq> ''whisper''" "provider mi \<noteq> ''deepgram''"
        "provider mi = ''gemini''"
    | (other) "provider mi \<noteq> ''whisper''" "provider mi \<noteq> ''deepgram''"
        "provider mi \<noteq> ''gemini''"
    by blast
  then show ?thesis
  proof cases
    case whisper
    then show ?thesis using ne Some
      by (simp add: handleMessage_def fst_messageErrorCheck Let_def)
  next
    case deepgram
    then show ?thesis using ne Some
      by (simp add: handleMessage_def fst_messageErrorCheck Let_def truthy_def
          split: option.splits)
  next
    case gemini
    then show ?thesis using ne Some
      by (simp add: handleMessage_def fst_messageErrorCheck Let_def)
  next
    case other
    then show ?thesis using ne Some
      by (simp add: handleMessage_def fst_messageErrorCheck Let_def)
  qed
qed

lemma emptied_only_by_start_or_close:
  assumes "currentTranscription s \<noteq> []" and "currentTranscription (fst (stt_step op s)) = []"
  shows "op = StartListening \<or> (\<exists>r. op = CloseSession r)"
proof (cases op)
  case (HandleMessage m)
  with assms handleMessage_keeps_nonempty [of s m] show ?thesis by simp
next
  case (InitializeSession info created)
  with assms show ?thesis
    by (auto simp: initializeSession_def Let_def split: option.splits if_splits)
next
  case (SendAudioData d mt f sn)
  with assms show ?thesis by (auto split: sum.splits)
qed (use assms in \<open>auto simp: setCallbacks_def stopListening_def adapter_onclose_def
      adapter_onerror_def Let_def split: if_splits\<close>)

text \<open>
  Claim C6, as the code has it. Over all operations of the service (setting callbacks,
  initializing, starting and stopping listening, sending audio, closing, a raw message of
  any provider, the adapter's close and error callbacks), a non-empty
  \<open>currentTranscription\<close> is emptied only on a \<open>Final\<close> or turn-complete message,
  by \<open>startListening\<close>, or by \<open>closeSession\<close>. \<open>closeSession\<close> always empties
  it, and \<open>startListening\<close> does whenever it starts listening.
\<close>

theorem transcription_reset_only_on_final_start_or_close:
  "(currentTranscription s \<noteq> [] \<and> currentTranscription (fst (stt_step op s)) = []
      \<longrightarrow> (\<exists>m. op = HandleMessage m \<and> (raisesFinal (snd (handleMessage m s)) \<or> turnComplete m))
          \<or> op = StartListening \<or> (\<exists>r. op = CloseSession r))
   \<and> currentTranscription (fst (stt_step (CloseSession r) s)) = []
   \<and> (sttSession s \<and> \<not> isListening s
        \<longrightarrow> currentTranscription (fst (stt_step StartListening s)) = [])"
proof (intro conjI impI)
  assume "currentTranscription s \<noteq> [] \<and> currentTranscription (fst (stt_step op s)) = []"
  then have "op = StartListening \<or> (\<exists>r. op = CloseSession r)"
    using emptied_only_by_start_or_close [of s op] by blast
  then show "(\<exists>m. op = HandleMessage m \<and> (raisesFinal (snd (handleMessage m s)) \<or> turnComplete m))
          \<or> op = StartListening \<or> (\<exists>r. op = CloseSession r)"
    by blast
next
  show "currentTranscription (fst (stt_step (CloseSession r) s)) = []"
    by (simp add: closeSession_def Let_def split: prod.splits)
next
  assume "sttSession s \<and> \<not> isListening s"
  then show "currentTranscription (fst (stt_step StartListening s)) = []"
    by (simp add: startListening_def Let_def)
qed

theorem transcription_reset_only_on_final_start_or_close_witness:
  "sttSession paused_service \<and> \<not> isListening paused_service
   \<and> currentTranscription paused_service = ''hello''
   \<and> currentTranscription (fst (stt_step StartListening paused_service)) = []
   \<and> currentTranscription (fst (stt_step (CloseSession None) paused_service)) = []"
proof -
  have h: "sttSession paused_service \<and> \<not> isListening paused_service"
    by (simp add: paused_service_def whisper_service_def)
  have c: "currentTranscription paused_service = ''hello''"
    by (simp add: paused_service_def)
  from transcription_reset_only_on_final_start_or_close [of paused_service StartListening None] h
  have "currentTranscription (fst (stt_step StartListening paused_service)) = []
      \<and> currentTranscription (fst (stt_step (CloseSession None) paused_service)) = []"
    by blast
  with h c show ?thesis by simp
qed

text \<open>
  The claim as the specification words it fails: \<open>startListening\<close> is neither a
  \<open>Final\<close> or turn-complete event nor a session close (it raises the listening status
  only, and the session stays open), and it empties the accumulated text.
\<close>

theorem startListening_resets_transcription_counterexample:
  "currentTranscription paused_service = ''hello''
   \<and> startListening paused_service
       = Inr (paused_service\<lparr>isListening := True, currentTranscription := []\<rparr>,
              [OnStatusUpdate ''listening''])
   \<and> currentTranscription (fst (stt_step StartListening paused_service)) = []
   \<and> sttSession (fst (stt_step StartListening paused_service))
   \<and> \<not> raisesFinal (snd (stt_step StartListening paused_service))"
  by (simp add: startListening_def paused_service_def whisper_service_def emitStatus_def
      Let_def raisesFinal_def)

section \<open>Properties of the voice level meter\<close>

lemma foldl_add_sum_list: "foldl (\<lambda>a b. a + b) a xs = a + sum_list (xs :: real list)"
  by (induction xs arbitrary: a) simp_all

lemma sum_list_unit_bounds:
  "list_all (\<lambda>x. 0 \<le> x \<and> x \<le> 1) xs \<Longrightarrow> 0 \<le> sum_list xs \<and> sum_list xs \<le> real (length xs)"
  by (induction xs) auto

lemma avg_unit_bounds:
  assumes "list_all (\<lambda>x. 0 \<le> x \<and> x \<le> 1) xs" and "xs \<noteq> []"
  shows "0 \<le> sum_list xs / real (length xs) \<and> sum_list xs / real (length xs) \<le> 1"
proof -
  from assms(2) have pos: "0 < real (length xs)" by simp
  from sum_list_unit_bounds [OF assms(1)] pos show ?thesis
    by (simp add: field_simps)
qed

lemma updateSmoothed_inv: "level_inv s \<Longrightarrow> level_inv (updateSmoothedVoiceLevel s)"
proof -
  assume inv: "level_inv s"
  let ?h = "voiceLevelHistory s"
  let ?avg = "if length ?h > 0 then foldl (\<lambda>a b. a + b) 0 ?h / real (length ?h) else 0"
  have avg: "0 \<le> ?avg \<and> ?avg \<le> 1"
    using inv avg_unit_bounds [of ?h]
    by (auto simp: level_inv_def foldl_add_sum_list)
  have sm: "0 \<le> smoothedVoiceLevel s" "smoothedVoiceLevel s \<le> 1"
    using inv by (simp_all add: level_inv_def)
  have lo: "0 \<le> smoothedVoiceLevel s * (1 - VOICE_LEVEL_SMOOTHING) + ?avg * VOICE_LEVEL_SMOOTHING"
    using avg sm by (simp add: VOICE_LEVEL_SMOOTHING_def)
  have "smoothedVoiceLevel s * (7/10) + ?avg * (3/10) \<le> 1 * (7/10) + 1 * (3/10)"
    using avg sm by (intro add_mono mult_right_mono) simp_all
  then have hi: "smoothedVoiceLevel s * (1 - VOICE_LEVEL_SMOOTHING) + ?avg * VOICE_LEVEL_SMOOTHING \<le> 1"
    by (simp add: VOICE_LEVEL_SMOOTHING_def)
  show ?thesis
    using lo hi inv unfolding updateSmoothedVoiceLevel_def Let_def level_inv_def by simp
qed

lemma updateSmoothed_history [simp]:
  "voiceLevelHistory (updateSmoothedVoiceLevel s) = voiceLevelHistory s"
  by (simp add: updateSmoothedVoiceLevel_def Let_def)

lemma updateSmoothed_current [simp]:
  "currentVoiceLevel (updateSmoothedVoiceLevel s) = currentVoiceLevel s"
  by (simp add: updateSmoothedVoiceLevel_def Let_def)

lemma level_inv_push:
  assumes "level_inv s" and "0 \<le> lvl" and "lvl \<le> 1"
  shows "level_inv (s\<lparr>currentVoiceLevel := lvl,
     voiceLevelHistory := (if length (voiceLevelHistory s @ [lvl]) > VOICE_LEVEL_HISTORY_SIZE
        then tl (voiceLevelHistory s @ [lvl]) else voiceLevelHistory s @ [lvl])\<rparr>)"
proof -
  have "list_all (\<lambda>x. 0 \<le> x \<and> x \<le> 1) (voiceLevelHistory s @ [lvl])"
    using assms by (simp add: level_inv_def)
  then have "list_all (\<lambda>x. 0 \<le> x \<and> x \<le> 1) (tl (voiceLevelHistory s @ [lvl]))"
    by (cases "voiceLevelHistory s @ [lvl]") simp_all
  with assms show ?thesis by (auto simp: level_inv_def)
qed

text \<open>
  Claim C7, as the code has it. For an empty or absent frame \<open>calculateVoiceLevel\<close>
  returns 0, sets the current level to 0 and leaves the rolling history exactly as it was:
  no entry is pushed, and the smoothed level moves towards the mean of the unchanged
  history. For every frame a number is returned; with the smoothed level and the history
  in [0, 1], as they are from the start on, the returned level lies in [0, 1] and the
  ranges are kept.
\<close>

theorem empty_frame_leaves_history:
  "((audioData = None \<or> audioData = Some []) \<longrightarrow>
       fst (calculateVoiceLevel audioData s) = 0
       \<and> voiceLevelHistory (snd (calculateVoiceLevel audioData s)) = voiceLevelHistory s
       \<and> currentVoiceLevel (snd (calculateVoiceLevel audioData s)) = 0)
   \<and> (level_inv s \<longrightarrow>
        0 \<le> fst (calculateVoiceLevel audioData s) \<and> fst (calculateVoiceLevel audioData s) \<le> 1
        \<and> level_inv (snd (calculateVoiceLevel audioData s)))"
proof (intro conjI impI)
  assume e: "audioData = None \<or> audioData = Some []"
  then show "fst (calculateVoiceLevel audioData s) = 0"
    and "voiceLevelHistory (snd (calculateVoiceLevel audioData s)) = voiceLevelHistory s"
    and "currentVoiceLevel (snd (calculateVoiceLevel audioData s)) = 0"
    by (auto simp: calculateVoiceLevel_def)
next
  assume inv: "level_inv s"
  have z: "level_inv (s\<lparr>currentVoiceLevel := 0\<rparr>)" using inv by (simp add: level_inv_def)
  have "(0 \<le> fst (calculateVoiceLevel audioData s) \<and> fst (calculateVoiceLevel audioData s) \<le> 1)
        \<and> level_inv (snd (calculateVoiceLevel audioData s))"
  proof (cases "audioData = None \<or> audioData = Some []")
    case True
    then show ?thesis using updateSmoothed_inv [OF z] by (auto simp: calculateVoiceLevel_def)
  next
    case False
    then obtain d where d: "audioData = Some d" "d \<noteq> []" by (cases audioData) auto
    define lvl where "lvl = min 1 (max 0 ((sqrt (foldl (\<lambda>acc x. acc + x * x) 0 d / real (length d))
        - VOICE_LEVEL_MIN) / (VOICE_LEVEL_MAX - VOICE_LEVEL_MIN)))"
    have l: "0 \<le> lvl" "lvl \<le> 1" by (simp_all add: lvl_def)
    let ?s' = "updateSmoothedVoiceLevel (s\<lparr>currentVoiceLevel := lvl,
     voiceLevelHistory := (if length (voiceLevelHistory s @ [lvl]) > VOICE_LEVEL_HISTORY_SIZE
        then tl (voiceLevelHistory s @ [lvl]) else voiceLevelHistory s @ [lvl])\<rparr>)"
    have i: "level_inv ?s'"
      by (intro updateSmoothed_inv level_inv_push inv l)
    have c: "calculateVoiceLevel audioData s = (smoothedVoiceLevel ?s', ?s')"
      using d by (simp add: calculateVoiceLevel_def Let_def lvl_def)
    show ?thesis unfolding c using i by (simp add: level_inv_def)
  qed
  then show "0 \<le> fst (calculateVoiceLevel audioData s)"
    and "fst (calculateVoiceLevel audioData s) \<le> 1"
    and "level_inv (snd (calculateVoiceLevel audioData s))" by simp_all
qed

theorem empty_frame_leaves_history_witness:
  "fst (calculateVoiceLevel (Some []) (initial_capture\<lparr>voiceLevelHistory := [1]\<rparr>)) = 0
   \<and> voiceLevelHistory (snd (calculateVoiceLevel (Some []) (initial_capture\<lparr>voiceLevelHistory := [1]\<rparr>)))
       = [1]
   \<and> fst (calculateVoiceLevel None initial_capture) = 0
   \<and> level_inv initial_capture
   \<and> 0 \<le> fst (calculateVoiceLevel (Some [0.5, - 0.5]) initial_capture)
   \<and> fst (calculateVoiceLevel (Some [0.5, - 0.5]) initial_capture) \<le> 1"
proof -
  have i: "level_inv initial_capture"
    by (simp add: level_inv_def initial_capture_def)
  have h: "voiceLevelHistory (initial_capture\<lparr>voiceLevelHistory := [1]\<rparr>) = [1]"
    by simp
  from empty_frame_leaves_history [of "Some []" "initial_capture\<lparr>voiceLevelHistory := [1]\<rparr>"]
    empty_frame_leaves_history [of None initial_capture]
    empty_frame_leaves_history [of "Some [0.5, - 0.5]" initial_capture] i h
  show ?thesis by simp
qed

text \<open>
  The claim as the specification words it fails: after an empty frame the history
  \<open>[1]\<close> is still \<open>[1]\<close>, no 0 entry has been pushed, and the smoothed level is 0.3,
  the value for the unchanged history (with a pushed 0 it would be 0.15).
\<close>

theorem empty_frame_pushes_nothing_counterexample:
  "voiceLevelHistory (initial_capture\<lparr>voiceLevelHistory := [1]\<rparr>) = [1]
   \<and> voiceLevelHistory
        (snd (calculateVoiceLevel (Some []) (initial_capture\<lparr>voiceLevelHistory := [1]\<rparr>))) = [1]
   \<and> voiceLevelHistory
        (snd (calculateVoiceLevel (Some []) (initial_capture\<lparr>voiceLevelHistory := [1]\<rparr>))) \<noteq> [1, 0]
   \<and> smoothedVoiceLevel
        (snd (calculateVoiceLevel (Some []) (initial_capture\<lparr>voiceLevelHistory := [1]\<rparr>))) = 0.3"
  by (simp add: calculateVoiceLevel_def updateSmoothedVoiceLevel_def initial_capture_def
      VOICE_LEVEL_SMOOTHING_def)

section \<open>Properties of the PCM16 and base64 encoding\<close>

lemma group3a:
  fixes x y z :: nat
  assumes "x < 256" "y < 256" "z < 256"
  shows "x div 4 < 64" "(x mod 4) * 16 + y div 16 < 64" "(y mod 16) * 4 + z div 64 < 64" "z mod 64 < 64"
    "(y mod 16) * 4 < 64" "(x mod 4) * 16 < 64"
  using assms by auto

lemma group3b:
  fixes x y z :: nat
  assumes "y < 256" 
  shows "(x div 4) * 4 + ((x mod 4) * 16 + y div 16) div 16 = x"
proof -
  have "y div 16 < 16" using assms by simp
  then have "((x mod 4) * 16 + y div 16) div 16 = x mod 4" by simp
  then show ?thesis by simp
qed

lemma group3c:
  fixes x y z :: nat
  assumes "y < 256" "z < 256"
  shows "(((x mod 4) * 16 + y div 16) mod 16) * 16 + ((y mod 16) * 4 + z div 64) div 4 = y"
proof -
  have a: "y div 16 < 16" "z div 64 < 4" using assms by simp_all
  then have "((x mod 4) * 16 + y div 16) mod 16 = y div 16" by simp
  moreover have "((y mod 16) * 4 + z div 64) div 4 = y mod 16" using a by simp
  ultimately show ?thesis by simp
qed

lemma group3d:
  fixes x y z :: nat
  assumes "z < 256"
  shows "(((y mod 16) * 4 + z div 64) mod 4) * 64 + z mod 64 = z"
proof -
  have a: "z div 64 < 4" using assms by simp
  then have "((y mod 16) * 4 + z div 64) mod 4 = z div 64" by simp
  then show ?thesis by simp
qed

lemma group3e:
  fixes x y :: nat
  assumes "y < 256"
  shows "(x div 4) * 4 + ((x mod 4) * 16) div 16 = x"
    "(((x mod 4) * 16 + y div 16) mod 16) * 16 + ((y mod 16) * 4) div 4 = y"
proof -
  show "(x div 4) * 4 + ((x mod 4) * 16) div 16 = x" by simp
  have a: "y div 16 < 16" using assms by simp
  then have "((x mod 4) * 16 + y div 16) mod 16 = y div 16" by simp
  then show "(((x mod 4) * 16 + y div 16) mod 16) * 16 + ((y mod 16) * 4) div 4 = y" by simp
qed
lemma b64val_b64char: "n < 64 \<Longrightarrow> b64val (b64char n) = Some n"
proof -
  assume n: "n < 64"
  consider "n < 26" | "26 \<le> n" "n < 52" | "52 \<le> n" "n < 62" | "n = 62" | "n = 63"
    using n by linarith
  then show ?thesis
  proof cases
    case 1
    then show ?thesis by (simp add: b64val_def b64char_def Let_def)
  next
    case 2
    then show ?thesis by (simp add: b64val_def b64char_def Let_def)
  next
    case 3
    then have "48 \<le> n - 4 \<and> n - 4 \<le> 57 \<and> n - 4 + 4 = n" by arith
    with 3 show ?thesis by (simp add: b64val_def b64char_def Let_def)
  next
    case 4
    then show ?thesis by (simp add: b64val_def b64char_def Let_def)
  next
    case 5
    then show ?thesis by (simp add: b64val_def b64char_def Let_def)
  qed
qed

lemma b64val_pad: "b64val (CHR ''='') = None"
  by (simp add: b64val_def Let_def)

lemma b64char_not_pad: "n < 64 \<Longrightarrow> b64char n \<noteq> CHR ''=''"
  using b64val_b64char [of n] b64val_pad by auto

lemma of_char_lt: "(of_char c :: nat) < 256"
  by (rule nat_of_char_less_256)

lemma atob_btoa: "atob (btoa bs) = Some bs"
proof (induction bs rule: btoa.induct)
  case (1 a b c rest)
  let ?x = "of_char a :: nat" and ?y = "of_char b :: nat" and ?z = "of_char c :: nat"
  have v: "b64val (b64char (?x div 4)) = Some (?x div 4)"
      "b64val (b64char ((?x mod 4) * 16 + ?y div 16)) = Some ((?x mod 4) * 16 + ?y div 16)"
      "b64val (b64char ((?y mod 16) * 4 + ?z div 64)) = Some ((?y mod 16) * 4 + ?z div 64)"
      "b64val (b64char (?z mod 64)) = Some (?z mod 64)"
    using group3a [OF of_char_lt [of a] of_char_lt [of b] of_char_lt [of c]]
    by (simp_all add: b64val_b64char)
  have np: "b64char (?z mod 64) \<noteq> CHR ''=''"
    by (rule b64char_not_pad) simp
  have bytes: "char_of ((?x div 4) * 4 + ((?x mod 4) * 16 + ?y div 16) div 16) = a"
      "char_of ((((?x mod 4) * 16 + ?y div 16) mod 16) * 16 + ((?y mod 16) * 4 + ?z div 64) div 4) = b"
      "char_of ((((?y mod 16) * 4 + ?z div 64) mod 4) * 64 + ?z mod 64) = c"
    by (simp_all only: group3b [OF of_char_lt] group3c [OF of_char_lt of_char_lt]
        group3d [OF of_char_lt] char_of_char)
  show ?case
    by (simp only: btoa.simps Let_def atob.simps v 1 np bytes simp_thms if_False
        prod.case option.case)
next
  case (2 a b)
  let ?x = "of_char a :: nat" and ?y = "of_char b :: nat"
  have v: "b64val (b64char (?x div 4)) = Some (?x div 4)"
      "b64val (b64char ((?x mod 4) * 16 + ?y div 16)) = Some ((?x mod 4) * 16 + ?y div 16)"
      "b64val (b64char ((?y mod 16) * 4)) = Some ((?y mod 16) * 4)"
    using group3a [OF of_char_lt [of a] of_char_lt [of b] of_char_lt [of b]]
    by (simp_all add: b64val_b64char)
  have np: "b64char ((?y mod 16) * 4) \<noteq> CHR ''=''"
    using group3a(5) [OF of_char_lt [of a] of_char_lt [of b] of_char_lt [of b]]
    by (rule b64char_not_pad)
  have bytes: "char_of ((?x div 4) * 4 + ((?x mod 4) * 16 + ?y div 16) div 16) = a"
      "char_of ((((?x mod 4) * 16 + ?y div 16) mod 16) * 16 + ((?y mod 16) * 4) div 4) = b"
    by (simp_all only: group3b [OF of_char_lt] group3e(2) [OF of_char_lt] char_of_char)
  show ?case
    by (simp only: btoa.simps Let_def atob.simps v np bytes simp_thms if_False if_True
        prod.case option.case)
next
  case (3 a)
  let ?x = "of_char a :: nat"
  have v: "b64val (b64char (?x div 4)) = Some (?x div 4)"
      "b64val (b64char ((?x mod 4) * 16)) = Some ((?x mod 4) * 16)"
    using group3a [OF of_char_lt [of a] of_char_lt [of a] of_char_lt [of a]]
    by (simp_all add: b64val_b64char)
  have bytes: "char_of ((?x div 4) * 4 + ((?x mod 4) * 16) div 16) = a"
    by (simp only: group3e(1) [OF of_char_lt [of a]] char_of_char)
  show ?case
    by (simp only: btoa.simps Let_def atob.simps v bytes simp_thms if_False if_True
        prod.case option.case)
next
  case 4
  then show ?case by simp
qed

lemma int16_bytes_roundtrip:
  fixes w :: "16 word"
  shows "word_of_nat (of_char (char_of (unat (ucast w :: 8 word)) :: char)
            + 256 * of_char (char_of (unat (ucast (drop_bit 8 w) :: 8 word)) :: char)) = w"
proof -
  have lt: "unat w < 65536" using unsigned_less [of w, where ?'a = nat] by simp
  have lo: "unat (ucast w :: 8 word) = unat w mod 256"
    by (simp add: unsigned_ucast_eq take_bit_eq_mod)
  have d: "unat (drop_bit 8 w) = unat w div 256"
    by (simp only: unat_drop_bit_eq) (simp add: drop_bit_eq_div)
  have "unat (ucast (drop_bit 8 w) :: 8 word) = unat (drop_bit 8 w) mod 256"
    unfolding unsigned_ucast_eq take_bit_eq_mod by simp
  also have "\<dots> = unat w div 256"
    unfolding d using lt by simp
  finally have hi: "unat (ucast (drop_bit 8 w) :: 8 word) = unat w div 256" .
  have "unat w mod 256 + 256 * (unat w div 256) = unat w" by presburger
  moreover have "(unat w div 256) mod 256 = unat w div 256" using lt by simp
  ultimately show ?thesis by (simp add: lo hi)
qed

lemma bytesToInt16_buffer:
  "bytesToInt16 (map (\<lambda>byte. char_of (unat byte)) (int16Buffer ws)) = Some ws"
proof (induction ws)
  case Nil
  then show ?case by (simp add: int16Buffer_def)
next
  case (Cons w ws)
  have "bytesToInt16 (map (\<lambda>byte. char_of (unat byte)) (int16Buffer (w # ws)))
      = (case bytesToInt16 (map (\<lambda>byte. char_of (unat byte)) (int16Buffer ws)) of
           Some vs \<Rightarrow> Some (word_of_nat (of_char (char_of (unat (ucast w :: 8 word)) :: char)
            + 256 * of_char (char_of (unat (ucast (drop_bit 8 w) :: 8 word)) :: char)) # vs)
         | None \<Rightarrow> None)"
    by (simp only: int16Buffer_def list.map concat.simps append.simps bytesToInt16.simps)
  then show ?case
    by (simp only: Cons.IH option.case int16_bytes_roundtrip)
qed

lemma decode_encode: "decodePcm16 (arrayBufferToBase64 (int16Buffer ws)) = Some ws"
  by (simp add: decodePcm16_def arrayBufferToBase64_def atob_btoa bytesToInt16_buffer)

lemma trunc_error:
  fixes r :: real
  shows "\<bar>real_of_int (if r < 0 then \<lceil>r\<rceil> else \<lfloor>r\<rfloor>) - r\<bar> < 1"
proof (cases "r < 0")
  case True
  then show ?thesis by simp linarith
next
  case False
  then show ?thesis by simp linarith
qed

lemma sint_toInt16:
  assumes "- 32768 \<le> r" and "r \<le> 32767"
  shows "sint (toInt16 r) = (if r < 0 then \<lceil>r\<rceil> else \<lfloor>r\<rfloor>)"
proof -
  define k where "k = (if r < 0 then \<lceil>r\<rceil> else \<lfloor>r\<rfloor>)"
  have lo: "- 32768 \<le> k"
  proof (cases "r < 0")
    case True
    have "- 32768 \<le> \<lceil>r\<rceil>" using assms(1) by linarith
    with True show ?thesis by (simp add: k_def)
  next
    case False
    then have "0 \<le> \<lfloor>r\<rfloor>" by simp
    with False show ?thesis by (simp add: k_def)
  qed
  have hi: "k < 32768"
  proof (cases "r < 0")
    case True
    then have "\<lceil>r\<rceil> \<le> 0" by (simp add: ceiling_le_iff)
    with True show ?thesis by (simp add: k_def)
  next
    case False
    have "\<lfloor>r\<rfloor> \<le> 32767" using assms(2) by linarith
    with False show ?thesis by (simp add: k_def)
  qed
  have "signed_take_bit 15 k = k"
    using lo hi by (intro signed_take_bit_int_eq_self) simp_all
  then have "sint (word_of_int k :: 16 word) = k"
    by (simp add: sint_sbintrunc')
  then show ?thesis by (simp only: toInt16_def k_def)
qed

lemma sample_quantization:
  assumes "- 1 \<le> x" and "x \<le> 1"
  shows "\<bar>real_of_int (sint (toInt16 (if max (- 1) (min 1 x) < 0 then max (- 1) (min 1 x) * 0x8000
            else max (- 1) (min 1 x) * 0x7fff))) - x * pcmScale x\<bar> < 1"
proof -
  have s: "max (- 1) (min 1 x) = x" using assms by simp
  define r where "r = x * pcmScale x"
  have r: "(if x < 0 then x * 0x8000 else x * 0x7fff) = r"
    by (simp add: r_def pcmScale_def)
  have b: "- 32768 \<le> r" "r \<le> 32767"
    using assms by (auto simp: r_def pcmScale_def)
  show ?thesis
    unfolding s r sint_toInt16 [OF b] r_def [symmetric]
    by (rule trunc_error)
qed

text \<open>
  Claim C8. For samples in [-1, 1], encoding to PCM16 with \<open>convertFloat32ToInt16\<close>,
  to base64 with \<open>arrayBufferToBase64\<close>, and decoding back gives as many 16-bit samples
  as there were, each less than one quantization step away from the original: in units of
  the step, the decoded integer differs from the scaled sample by less than 1.
\<close>

theorem pcm16_base64_roundtrip:
  assumes "\<forall>x \<in> set xs. - 1 \<le> x \<and> x \<le> 1"
  shows "\<exists>ys. decodePcm16 (arrayBufferToBase64 (int16Buffer (convertFloat32ToInt16 xs))) = Some ys
       \<and> length ys = length xs
       \<and> (\<forall>i < length xs. \<bar>real_of_int (sint (ys ! i)) - xs ! i * pcmScale (xs ! i)\<bar> < 1)"
proof -
  let ?ys = "convertFloat32ToInt16 xs"
  have "\<bar>real_of_int (sint (?ys ! i)) - xs ! i * pcmScale (xs ! i)\<bar> < 1" if "i < length xs" for i
  proof -
    from that assms have "- 1 \<le> xs ! i" "xs ! i \<le> 1" by auto
    from sample_quantization [OF this] that show ?thesis
      by (simp add: convertFloat32ToInt16_def Let_def)
  qed
  then show ?thesis
    by (simp add: decode_encode convertFloat32ToInt16_def)
qed

theorem pcm16_base64_roundtrip_witness:
  "arrayBufferToBase64 (int16Buffer (convertFloat32ToInt16 [1, - 1, 0.5])) = ''/38AgP8/''
   \<and> decodePcm16 ''/38AgP8/'' = Some [32767, - 32768, 16383]
   \<and> \<bar>real_of_int (sint (16383 :: 16 word)) - 0.5 * pcmScale 0.5\<bar> < 1"
proof -
  have enc: "arrayBufferToBase64 (int16Buffer (convertFloat32ToInt16 [1, - 1, 0.5])) = ''/38AgP8/''"
    by (simp add: convertFloat32ToInt16_def toInt16_def arrayBufferToBase64_def int16Buffer_def
        Let_def b64char_def char_of_eq_iff)
  have dec: "decodePcm16 ''/38AgP8/'' = Some [32767, - 32768, 16383]"
    by (simp add: decodePcm16_def b64val_def Let_def)
  have range: "\<forall>x \<in> set [1, - 1, 0.5 :: real]. - 1 \<le> x \<and> x \<le> 1" by simp
  from pcm16_base64_roundtrip [OF range]
  obtain ys where ys: "decodePcm16 (arrayBufferToBase64 (int16Buffer (convertFloat32ToInt16 [1, - 1, 0.5])))
        = Some ys"
    and err: "\<forall>i < length [1, - 1, 0.5 :: real].
        \<bar>real_of_int (sint (ys ! i)) - [1, - 1, 0.5] ! i * pcmScale ([1, - 1, 0.5] ! i)\<bar> < 1"
    by blast
  from ys have y: "ys = [32767, - 32768, 16383]" by (simp only: enc dec option.inject)
  from err [rule_format, of 2]
  have "\<bar>real_of_int (sint (16383 :: 16 word)) - 0.5 * pcmScale 0.5\<bar> < 1"
    by (simp add: y)
  with enc dec show ?thesis by blast
qed

section \<open>Properties of the conversational turn\<close>

lemmas ask_eval =
  sendMessage_def turnBody_def streamTurn_def processStream_def handleConversational_def
  generateConversationalResponseInParallel_def conversationalMessages_def primaryMessages_def
  textOnlyMessages_def formatConversationForPrompt_def dataLines_def trim_def isWhiteSpace_def
  truthy_def hasImage_def imageUrl_def Let_def

lemma streamChatCalls_simps [simp]:
  "streamChatCalls [] = []"
  "streamChatCalls (StreamChat ms # eff) = ms # streamChatCalls eff"
  "streamChatCalls (RequestVisibility b # eff) = streamChatCalls eff"
  "streamChatCalls (BroadcastState st # eff) = streamChatCalls eff"
  "streamChatCalls (AbortPrevious r # eff) = streamChatCalls eff"
  "streamChatCalls (ConvStreamChat ms # eff) = streamChatCalls eff"
  "streamChatCalls (AddAiMessage n r c # eff) = streamChatCalls eff"
  "streamChatCalls (WinSend w # eff) = streamChatCalls eff"
  "streamChatCalls (ReaderCancel # eff) = streamChatCalls eff"
  "streamChatCalls (xs @ ys) = streamChatCalls xs @ streamChatCalls ys"
  by (simp_all add: streamChatCalls_def)

lemma processLines_calls:
  "streamChatCalls (snd (snd (snd (processLines parse ls (full, st, eff))))) = streamChatCalls eff"
  by (induction parse ls "(full, st, eff)" arbitrary: full st eff rule: processLines.induct)
     (auto simp: Let_def split: option.splits)

lemma readLoop_calls:
  "streamChatCalls (snd (snd (snd (readLoop parse rs (full, st, eff))))) = streamChatCalls eff"
proof (induction rs arbitrary: full st eff)
  case Nil
  then show ?case by simp
next
  case (Cons r rs)
  show ?case
  proof (cases r)
    case (ReadFails e)
    then show ?thesis by simp
  next
    case (ReadChunk chunk)
    obtain d full' st' eff' where p: "processLines parse (dataLines chunk) (full, st, eff) = (d, full', st', eff')"
      by (cases "processLines parse (dataLines chunk) (full, st, eff)") auto
    from processLines_calls [of parse "dataLines chunk" full st eff] p
    have c: "streamChatCalls eff' = streamChatCalls eff" by simp
    show ?thesis using ReadChunk p c Cons.IH [of full' st' eff'] by (cases d) simp_all
  qed
qed

lemma processStream_calls: "streamChatCalls (snd (processStream env sid reads st)) = []"
proof -
  let ?st1 = "st\<lparr>isLoading := False, isStreaming := True\<rparr>"
  obtain err full st2 eff2 where r: "readLoop (parseToken env) reads ([], ?st1, [BroadcastState ?st1]) = (err, full, st2, eff2)"
    by (cases "readLoop (parseToken env) reads ([], ?st1, [BroadcastState ?st1])") auto
  from readLoop_calls [of "parseToken env" reads "[]" ?st1 "[BroadcastState ?st1]"] r
  have "streamChatCalls eff2 = []" by simp
  then show ?thesis
    by (simp add: processStream_def r Let_def split: option.splits)
qed


lemma sendMessage_streamTurn:
  assumes "getOrCreateActive env = Inr sid" and "addUserMessage env = None"
    and "currentModelInfo env = Some mi" and "apiKey mi \<noteq> []"
    and t: "streamTurn env sid (turnSystemPrompt env raw) userPrompt (screenshot env)
              (awaitedConversational svc userPrompt env) (turnStart svc userPrompt) = (outcome, st, eff)"
  shows "streamChatCalls (fst (snd (sendMessage userPrompt raw env svc))) = streamChatCalls eff"
    and "snd (snd (sendMessage userPrompt raw env svc))
           = (case outcome of Inr r \<Rightarrow> r | Inl e \<Rightarrow> Failure (message e))"
    and "outcome = Inr r \<Longrightarrow> state (fst (sendMessage userPrompt raw env svc)) = st"
    and "outcome = Inr r \<Longrightarrow> set eff \<subseteq> set (fst (snd (sendMessage userPrompt raw env svc)))"
proof -
  have tb: "turnBody userPrompt raw (voiceMode svc) env (turnStart svc userPrompt)
      = (outcome, st, AddAiMessage sid ''user'' (trim userPrompt)
           # (if voiceMode svc then snd (generateConversationalResponseInParallel userPrompt (screenshot env) env) else [])
           @ eff)"
  proof (cases "voiceMode svc")
    case True
    with assms(1-4) t show ?thesis
      by (simp add: turnBody_def Let_def turnSystemPrompt_def awaitedConversational_def)
  next
    case False
    with assms(1-4) t show ?thesis
      by (simp add: turnBody_def Let_def turnSystemPrompt_def awaitedConversational_def)
  qed
  have vm: "(isListeningAsk (turnStart svc userPrompt) \<or> sttTranscription (turnStart svc userPrompt) \<noteq> [])
      = voiceMode svc"
    by (simp add: turnStart_def voiceMode_def)
  have sm: "sendMessage userPrompt raw env svc =
     (let st0 = turnStart svc userPrompt;
          eff0 = [RequestVisibility True, BroadcastState st0]
                 @ (if abortController svc then [AbortPrevious ''New request received.''] else []);
          (outcome, st, eff) = turnBody userPrompt raw (voiceMode svc) env st0
      in case outcome of
           Inr result \<Rightarrow> (\<lparr>state = st, abortController = True\<rparr>, eff0 @ eff, result)
         | Inl error \<Rightarrow>
             (let st' = st\<lparr>isLoading := False, isStreaming := False, showTextInput := True\<rparr>
              in (\<lparr>state = st', abortController = True\<rparr>,
                  eff0 @ eff @ [BroadcastState st']
                  @ (if windowAvailable env AtTurnError
                     then [WinSend (StreamError
                             (Some (if truthy (message error) then the (message error)
                                    else ''Unknown error occurred'')))]
                     else []),
                  Failure (message error))))"
    unfolding sendMessage_def turnStart_def [symmetric] Let_def vm ..
  have gc: "streamChatCalls (snd (generateConversationalResponseInParallel userPrompt (screenshot env) env)) = []"
    by (simp add: generateConversationalResponseInParallel_def Let_def)
  show "streamChatCalls (fst (snd (sendMessage userPrompt raw env svc))) = streamChatCalls eff"
    unfolding sm tb Let_def by (cases outcome) (simp_all add: gc)
  show "snd (snd (sendMessage userPrompt raw env svc))
           = (case outcome of Inr r \<Rightarrow> r | Inl e \<Rightarrow> Failure (message e))"
    unfolding sm tb Let_def by (cases outcome) simp_all
  show "outcome = Inr r \<Longrightarrow> state (fst (sendMessage userPrompt raw env svc)) = st"
    unfolding sm tb Let_def by simp
  show "outcome = Inr r \<Longrightarrow> set eff \<subseteq> set (fst (snd (sendMessage userPrompt raw env svc)))"
    unfolding sm tb Let_def by auto
qed


lemma streamTurn_primary_fails:
  assumes "streamChat env (primaryMessages sp up img) = Inl e"
  shows "truthy img \<and> isMultimodalError e \<Longrightarrow>
           streamChatCalls (snd (snd (streamTurn env sid sp up img conv st)))
             = [primaryMessages sp up img, textOnlyMessages sp up]
           \<and> fst (streamTurn env sid sp up img conv st)
             = (case streamChat env (textOnlyMessages sp up) of
                  Inl e2 \<Rightarrow> Inl e2
                | Inr reads \<Rightarrow>
                    Inr (if windowAvailable env AtFallbackStream then Success
                         else Failure (Some ''Ask window is not available.'')))"
    and "\<not> (truthy img \<and> isMultimodalError e) \<Longrightarrow>
           streamTurn env sid sp up img conv st = (Inl e, st, [StreamChat (primaryMessages sp up img)])"
proof -
  assume a: "truthy img \<and> isMultimodalError e"
  show "streamChatCalls (snd (snd (streamTurn env sid sp up img conv st)))
             = [primaryMessages sp up img, textOnlyMessages sp up]
           \<and> fst (streamTurn env sid sp up img conv st)
             = (case streamChat env (textOnlyMessages sp up) of
                  Inl e2 \<Rightarrow> Inl e2
                | Inr reads \<Rightarrow>
                    Inr (if windowAvailable env AtFallbackStream then Success
                         else Failure (Some ''Ask window is not available.'')))"
  proof (cases "streamChat env (textOnlyMessages sp up)")
    case (Inl e2)
    with assms a show ?thesis by (simp add: streamTurn_def Let_def)
  next
    case (Inr reads)
    obtain st1 eff1 where p: "processStream env sid reads st = (st1, eff1)"
      by (cases "processStream env sid reads st")
    from processStream_calls [of env sid reads st] p have "streamChatCalls eff1 = []" by simp
    with assms a Inr p show ?thesis by (simp add: streamTurn_def Let_def)
  qed
next
  assume "\<not> (truthy img \<and> isMultimodalError e)"
  with assms show "streamTurn env sid sp up img conv st = (Inl e, st, [StreamChat (primaryMessages sp up img)])"
    by (auto simp: streamTurn_def Let_def)
qed

lemma abort_reasons_not_multimodal:
  "\<forall>r \<in> set abortReasons. \<not> isMultimodalError (JsError (Some r))"
  by (simp add: abortReasons_def isMultimodalError_def truthy_def toLowerCase_def toLowerChar_def Let_def)

lemma message_lists:
  "hasImage (primaryMessages sp up img) = truthy img"
  "\<not> hasImage (textOnlyMessages sp up)"
  "hd (textOnlyMessages sp up) = \<lparr>role = ''system'', content = PlainContent sp\<rparr>"
  "hd (primaryMessages sp up img) = \<lparr>role = ''system'', content = PlainContent sp\<rparr>"
  by (simp_all add: hasImage_def primaryMessages_def textOnlyMessages_def imageUrl_def)

lemma rejected_call_outcome:
  assumes "getOrCreateActive env = Inr sid" and "addUserMessage env = None"
    and "currentModelInfo env = Some mi" and "apiKey mi \<noteq> []"
    and fail: "streamChat env (primaryMessages (turnSystemPrompt env raw) userPrompt (screenshot env)) = Inl e"
  shows "(truthy (screenshot env) \<and> isMultimodalError e \<longrightarrow>
            streamChatCalls (fst (snd (sendMessage userPrompt raw env svc)))
              = [primaryMessages (turnSystemPrompt env raw) userPrompt (screenshot env),
                 textOnlyMessages (turnSystemPrompt env raw) userPrompt]
            \<and> snd (snd (sendMessage userPrompt raw env svc))
              = (case streamChat env (textOnlyMessages (turnSystemPrompt env raw) userPrompt) of
                   Inl e2 \<Rightarrow> Failure (message e2)
                 | Inr reads \<Rightarrow>
                     if windowAvailable env AtFallbackStream then Success
                     else Failure (Some ''Ask window is not available.'')))
       \<and> (\<not> (truthy (screenshot env) \<and> isMultimodalError e) \<longrightarrow>
            streamChatCalls (fst (snd (sendMessage userPrompt raw env svc)))
              = [primaryMessages (turnSystemPrompt env raw) userPrompt (screenshot env)]
            \<and> snd (snd (sendMessage userPrompt raw env svc)) = Failure (message e))
       \<and> hasImage (primaryMessages (turnSystemPrompt env raw) userPrompt (screenshot env))
           = truthy (screenshot env)
       \<and> \<not> hasImage (textOnlyMessages (turnSystemPrompt env raw) userPrompt)
       \<and> hd (textOnlyMessages (turnSystemPrompt env raw) userPrompt)
           = hd (primaryMessages (turnSystemPrompt env raw) userPrompt (screenshot env))
       \<and> (\<forall>r \<in> set abortReasons. \<not> isMultimodalError (JsError (Some r)))"
proof -
  let ?sp = "turnSystemPrompt env raw"
  let ?t = "streamTurn env sid ?sp userPrompt (screenshot env)
              (awaitedConversational svc userPrompt env) (turnStart svc userPrompt)"
  obtain outcome st eff where t: "?t = (outcome, st, eff)" by (cases ?t)
  note sm = sendMessage_streamTurn(1,2) [OF assms(1-4) t]
  have A: "streamChatCalls (fst (snd (sendMessage userPrompt raw env svc)))
              = [primaryMessages ?sp userPrompt (screenshot env), textOnlyMessages ?sp userPrompt]
            \<and> snd (snd (sendMessage userPrompt raw env svc))
              = (case streamChat env (textOnlyMessages ?sp userPrompt) of
                   Inl e2 \<Rightarrow> Failure (message e2)
                 | Inr reads \<Rightarrow>
                     if windowAvailable env AtFallbackStream then Success
                     else Failure (Some ''Ask window is not available.''))"
    if a: "truthy (screenshot env) \<and> isMultimodalError e"
  proof -
    from streamTurn_primary_fails(1) [OF fail a, of sid "awaitedConversational svc userPrompt env" "turnStart svc userPrompt"] t
    have "streamChatCalls eff = [primaryMessages ?sp userPrompt (screenshot env), textOnlyMessages ?sp userPrompt]"
      and "outcome = (case streamChat env (textOnlyMessages ?sp userPrompt) of
                  Inl e2 \<Rightarrow> Inl e2
                | Inr reads \<Rightarrow>
                    Inr (if windowAvailable env AtFallbackStream then Success
                         else Failure (Some ''Ask window is not available.'')))"
      by simp_all
    then show ?thesis unfolding sm by (simp split: sum.splits)
  qed
  have B: "streamChatCalls (fst (snd (sendMessage userPrompt raw env svc)))
              = [primaryMessages ?sp userPrompt (screenshot env)]
            \<and> snd (snd (sendMessage userPrompt raw env svc)) = Failure (message e)"
    if b: "\<not> (truthy (screenshot env) \<and> isMultimodalError e)"
  proof -
    from streamTurn_primary_fails(2) [OF fail b, of sid "awaitedConversational svc userPrompt env" "turnStart svc userPrompt"] t
    have "outcome = Inl e" and "eff = [StreamChat (primaryMessages ?sp userPrompt (screenshot env))]"
      by simp_all
    then show ?thesis unfolding sm by simp
  qed
  from A B show ?thesis
    by (simp add: message_lists abort_reasons_not_multimodal)
qed


lemma handleConversational_calls:
  "streamChatCalls (snd (handleConversational env conv st)) = []"
  by (simp add: handleConversational_def Let_def split: option.splits)

lemma processStream_reports:
  assumes "readFailure env reads st = Some e" and "\<not> aborted env"
    and "windowAvailable env AtStreamError"
  shows "WinSend (StreamError (message e)) \<in> set (snd (processStream env sid reads st))"
proof -
  let ?st1 = "st\<lparr>isLoading := False, isStreaming := True\<rparr>"
  obtain err full st2 eff2 where r:
    "readLoop (parseToken env) reads ([], ?st1, [BroadcastState ?st1]) = (err, full, st2, eff2)"
    by (cases "readLoop (parseToken env) reads ([], ?st1, [BroadcastState ?st1])") auto
  with assms(1) have "err = Some e" by (simp add: readFailure_def)
  with assms(2,3) r show ?thesis by (simp add: processStream_def Let_def)
qed

lemma streamTurn_primary_opened:
  assumes "streamChat env (primaryMessages sp up img) = Inr reads"
    and "windowAvailable env AtPrimaryStream"
  shows "fst (streamTurn env sid sp up img conv st) = Inr Success"
    and "streamChatCalls (snd (snd (streamTurn env sid sp up img conv st)))
           = [primaryMessages sp up img]"
    and "set (snd (processStream env sid reads st))
           \<subseteq> set (snd (snd (streamTurn env sid sp up img conv st)))"
proof -
  obtain st1 eff1 where p: "processStream env sid reads st = (st1, eff1)"
    by (cases "processStream env sid reads st")
  obtain st2 eff2 where h: "handleConversational env conv st1 = (st2, eff2)"
    by (cases "handleConversational env conv st1")
  have t: "streamTurn env sid sp up img conv st
      = (Inr Success, st2, StreamChat (primaryMessages sp up img) # eff1 @ eff2)"
    using assms p h by (simp add: streamTurn_def Let_def)
  from processStream_calls [of env sid reads st] p have c1: "streamChatCalls eff1 = []" by simp
  from handleConversational_calls [of env conv st1] h have c2: "streamChatCalls eff2 = []" by simp
  show "fst (streamTurn env sid sp up img conv st) = Inr Success" unfolding t by simp
  show "streamChatCalls (snd (snd (streamTurn env sid sp up img conv st)))
           = [primaryMessages sp up img]"
    unfolding t by (simp add: c1 c2)
  show "set (snd (processStream env sid reads st))
           \<subseteq> set (snd (snd (streamTurn env sid sp up img conv st)))"
    unfolding t p by auto
qed

lemma opened_stream_outcome:
  assumes "getOrCreateActive env = Inr sid" and "addUserMessage env = None"
    and "currentModelInfo env = Some mi" and "apiKey mi \<noteq> []"
    and opened: "streamChat env (primaryMessages (turnSystemPrompt env raw) userPrompt (screenshot env))
                   = Inr reads"
    and win: "windowAvailable env AtPrimaryStream"
  shows "streamChatCalls (fst (snd (sendMessage userPrompt raw env svc)))
           = [primaryMessages (turnSystemPrompt env raw) userPrompt (screenshot env)]"
    and "snd (snd (sendMessage userPrompt raw env svc)) = Success"
    and "readFailure env reads (turnStart svc userPrompt) = Some e \<Longrightarrow> \<not> aborted env \<Longrightarrow>
         windowAvailable env AtStreamError \<Longrightarrow>
         WinSend (StreamError (message e)) \<in> set (fst (snd (sendMessage userPrompt raw env svc)))"
proof -
  let ?sp = "turnSystemPrompt env raw"
  let ?t = "streamTurn env sid ?sp userPrompt (screenshot env)
              (awaitedConversational svc userPrompt env) (turnStart svc userPrompt)"
  obtain outcome st eff where t: "?t = (outcome, st, eff)" by (cases ?t)
  note opn = streamTurn_primary_opened [OF opened win, where sid = sid
      and conv = "awaitedConversational svc userPrompt env" and st = "turnStart svc userPrompt"]
  from opn(1) t have o: "outcome = Inr Success" by simp
  from opn(2) t have c: "streamChatCalls eff = [primaryMessages ?sp userPrompt (screenshot env)]"
    by simp
  note sm = sendMessage_streamTurn [OF assms(1-4) t]
  show "streamChatCalls (fst (snd (sendMessage userPrompt raw env svc)))
           = [primaryMessages ?sp userPrompt (screenshot env)]"
    unfolding sm(1) by (rule c)
  show "snd (snd (sendMessage userPrompt raw env svc)) = Success"
    unfolding sm(2) o by simp
  assume rf: "readFailure env reads (turnStart svc userPrompt) = Some e" and na: "\<not> aborted env"
    and w: "windowAvailable env AtStreamError"
  from processStream_reports [OF rf na w, where sid = sid] opn(3) t
  have "WinSend (StreamError (message e)) \<in> set eff" by auto
  with sm(4) [OF o] show "WinSend (StreamError (message e))
      \<in> set (fst (snd (sendMessage userPrompt raw env svc)))" by blast
qed

text \<open>
  Claim C2, as the code has it. Let the turn get as far as the streaming call (session,
  persistence and model lookup succeed). If the call itself is rejected with error \<open>e\<close>,
  before any stream is opened, then: with an image attached and the message of \<open>e\<close>
  matching the multimodal condition text, the model is called exactly once more, with the
  text-only message list, which has no image part and whose system message is the one of
  the first call; the turn ends as that retry ends, and a rejected retry is a terminal
  failure with no further call. With no image or no match there is no second call and the
  turn fails with the message of \<open>e\<close>. If the call opens a stream (the window being
  alive), nothing that happens while the stream is read leads to a second call or fails
  the turn: a failed read is caught by \<open>_processStream\<close>, which reports it to the
  window when the signal is not aborted, and the turn returns success. The reasons the
  orchestrator gives its own cancellations do not match the condition text.
\<close>

theorem multimodal_fallback_retries_once:
  assumes "getOrCreateActive env = Inr sid" and "addUserMessage env = None"
    and "currentModelInfo env = Some mi" and "apiKey mi \<noteq> []"
  shows "(streamChat env (primaryMessages (turnSystemPrompt env raw) userPrompt (screenshot env)) = Inl e
          \<and> truthy (screenshot env) \<and> isMultimodalError e \<longrightarrow>
            streamChatCalls (fst (snd (sendMessage userPrompt raw env svc)))
              = [primaryMessages (turnSystemPrompt env raw) userPrompt (screenshot env),
                 textOnlyMessages (turnSystemPrompt env raw) userPrompt]
            \<and> snd (snd (sendMessage userPrompt raw env svc))
              = (case streamChat env (textOnlyMessages (turnSystemPrompt env raw) userPrompt) of
                   Inl e2 \<Rightarrow> Failure (message e2)
                 | Inr reads \<Rightarrow>
                     if windowAvailable env AtFallbackStream then Success
                     else Failure (Some ''Ask window is not available.'')))
       \<and> (streamChat env (primaryMessages (turnSystemPrompt env raw) userPrompt (screenshot env)) = Inl e
          \<and> \<not> (truthy (screenshot env) \<and> isMultimodalError e) \<longrightarrow>
            streamChatCalls (fst (snd (sendMessage userPrompt raw env svc)))
              = [primaryMessages (turnSystemPrompt env raw) userPrompt (screenshot env)]
            \<and> snd (snd (sendMessage userPrompt raw env svc)) = Failure (message e))
       \<and> (streamChat env (primaryMessages (turnSystemPrompt env raw) userPrompt (screenshot env))
            = Inr reads
          \<and> windowAvailable env AtPrimaryStream \<longrightarrow>
            streamChatCalls (fst (snd (sendMessage userPrompt raw env svc)))
              = [primaryMessages (turnSystemPrompt env raw) userPrompt (screenshot env)]
            \<and> snd (snd (sendMessage userPrompt raw env svc)) = Success
            \<and> (readFailure env reads (turnStart svc userPrompt) = Some e'
                 \<and> \<not> aborted env \<and> windowAvailable env AtStreamError \<longrightarrow>
                 WinSend (StreamError (message e'))
                   \<in> set (fst (snd (sendMessage userPrompt raw env svc)))))
       \<and> hasImage (primaryMessages (turnSystemPrompt env raw) userPrompt (screenshot env))
           = truthy (screenshot env)
       \<and> \<not> hasImage (textOnlyMessages (turnSystemPrompt env raw) userPrompt)
       \<and> hd (textOnlyMessages (turnSystemPrompt env raw) userPrompt)
           = hd (primaryMessages (turnSystemPrompt env raw) userPrompt (screenshot env))
       \<and> (\<forall>r \<in> set abortReasons. \<not> isMultimodalError (JsError (Some r)))"
proof (intro conjI impI)
  assume a: "streamChat env (primaryMessages (turnSystemPrompt env raw) userPrompt (screenshot env)) = Inl e
          \<and> truthy (screenshot env) \<and> isMultimodalError e"
  then have fail: "streamChat env (primaryMessages (turnSystemPrompt env raw) userPrompt (screenshot env)) = Inl e"
    by blast
  from rejected_call_outcome [OF assms fail, where svc = svc] a
  show "streamChatCalls (fst (snd (sendMessage userPrompt raw env svc)))
              = [primaryMessages (turnSystemPrompt env raw) userPrompt (screenshot env),
                 textOnlyMessages (turnSystemPrompt env raw) userPrompt]"
    and "snd (snd (sendMessage userPrompt raw env svc))
              = (case streamChat env (textOnlyMessages (turnSystemPrompt env raw) userPrompt) of
                   Inl e2 \<Rightarrow> Failure (message e2)
                 | Inr reads \<Rightarrow>
                     if windowAvailable env AtFallbackStream then Success
                     else Failure (Some ''Ask window is not available.''))"
    by blast+
next
  assume b: "streamChat env (primaryMessages (turnSystemPrompt env raw) userPrompt (screenshot env)) = Inl e
          \<and> \<not> (truthy (screenshot env) \<and> isMultimodalError e)"
  then have fail: "streamChat env (primaryMessages (turnSystemPrompt env raw) userPrompt (screenshot env)) = Inl e"
    by blast
  from rejected_call_outcome [OF assms fail, where svc = svc] b
  show "streamChatCalls (fst (snd (sendMessage userPrompt raw env svc)))
              = [primaryMessages (turnSystemPrompt env raw) userPrompt (screenshot env)]"
    and "snd (snd (sendMessage userPrompt raw env svc)) = Failure (message e)"
    by blast+
next
  assume c: "streamChat env (primaryMessages (turnSystemPrompt env raw) userPrompt (screenshot env))
            = Inr reads
          \<and> windowAvailable env AtPrimaryStream"
  then have opened: "streamChat env (primaryMessages (turnSystemPrompt env raw) userPrompt (screenshot env))
            = Inr reads"
    and win: "windowAvailable env AtPrimaryStream"
    by blast+
  note oo = opened_stream_outcome [OF assms opened win, where svc = svc]
  show "streamChatCalls (fst (snd (sendMessage userPrompt raw env svc)))
              = [primaryMessages (turnSystemPrompt env raw) userPrompt (screenshot env)]"
    by (rule oo(1))
  show "snd (snd (sendMessage userPrompt raw env svc)) = Success"
    by (rule oo(2))
  assume "readFailure env reads (turnStart svc userPrompt) = Some e'
                 \<and> \<not> aborted env \<and> windowAvailable env AtStreamError"
  then show "WinSend (StreamError (message e'))
                   \<in> set (fst (snd (sendMessage userPrompt raw env svc)))"
    using oo(3) [of e'] by blast
qed (simp_all add: message_lists abort_reasons_not_multimodal)

theorem multimodal_fallback_retries_once_witness:
  "isMultimodalError (JsError (Some ''400 Unsupported image input''))
   \<and> streamChatCalls (fst (snd (sendMessage ''hi'' [] demo_env demo_service)))
       = [primaryMessages ''system: No conversation history available.'' ''hi'' (Some ''QUJD''),
          textOnlyMessages ''system: No conversation history available.'' ''hi'']
   \<and> snd (snd (sendMessage ''hi'' [] demo_env demo_service)) = Success
   \<and> \<not> isMultimodalError (JsError (Some ''rate limit exceeded''))
   \<and> streamChatCalls (fst (snd (sendMessage ''hi'' [] failing_env demo_service)))
       = [primaryMessages ''system: No conversation history available.'' ''hi'' None]
   \<and> snd (snd (sendMessage ''hi'' [] failing_env demo_service))
       = Failure (Some ''rate limit exceeded'')
   \<and> streamChatCalls (fst (snd (sendMessage ''hi'' [] read_error_env demo_service)))
       = [primaryMessages ''system: No conversation history available.'' ''hi'' (Some ''QUJD'')]
   \<and> snd (snd (sendMessage ''hi'' [] read_error_env demo_service)) = Success
   \<and> WinSend (StreamError (Some ''400 Unsupported image input''))
       \<in> set (fst (snd (sendMessage ''hi'' [] read_error_env demo_service)))"
proof -
  let ?mi = "\<lparr>provider = ''openai'', model = ''gpt-4o'', apiKey = ''key''\<rparr>"
  have sp: "turnSystemPrompt demo_env [] = ''system: No conversation history available.''"
    "turnSystemPrompt failing_env [] = ''system: No conversation history available.''"
    by (simp_all add: turnSystemPrompt_def demo_env_def failing_env_def
        formatConversationForPrompt_def)
  have d: "getOrCreateActive demo_env = Inr 7" "addUserMessage demo_env = None"
    "currentModelInfo demo_env = Some ?mi" "apiKey ?mi \<noteq> []" "screenshot demo_env = Some ''QUJD''"
    "windowAvailable demo_env AtFallbackStream"
    by (simp_all add: demo_env_def)
  have f: "getOrCreateActive failing_env = Inr 7" "addUserMessage failing_env = None"
    "currentModelInfo failing_env = Some ?mi" "screenshot failing_env = None"
    by (simp_all add: failing_env_def demo_env_def)
  have d_fail: "streamChat demo_env (primaryMessages (turnSystemPrompt demo_env []) ''hi''
        (screenshot demo_env)) = Inl (JsError (Some ''400 Unsupported image input''))"
    by (simp add: demo_env_def hasImage_def primaryMessages_def truthy_def imageUrl_def)
  have d_retry: "streamChat demo_env (textOnlyMessages (turnSystemPrompt demo_env []) ''hi'')
      = Inr [ReadChunk ''data: Hello'', ReadChunk ''data: [DONE]'']"
    by (simp add: demo_env_def hasImage_def textOnlyMessages_def)
  have f_fail: "streamChat failing_env (primaryMessages (turnSystemPrompt failing_env []) ''hi''
        (screenshot failing_env)) = Inl (JsError (Some ''rate limit exceeded''))"
    by (simp add: failing_env_def demo_env_def)
  have mm: "isMultimodalError (JsError (Some ''400 Unsupported image input''))"
    by (simp add: isMultimodalError_def truthy_def toLowerCase_def toLowerChar_def Let_def)
  have nm: "\<not> isMultimodalError (JsError (Some ''rate limit exceeded''))"
    by (simp add: isMultimodalError_def truthy_def toLowerCase_def toLowerChar_def Let_def)
  have tr: "truthy (screenshot demo_env)" by (simp add: d truthy_def)
  from multimodal_fallback_retries_once [OF d(1-4), where svc = demo_service and raw = "[]"
      and userPrompt = "''hi''" and e = "JsError (Some ''400 Unsupported image input'')"]
    d_fail mm tr
  have A: "streamChatCalls (fst (snd (sendMessage ''hi'' [] demo_env demo_service)))
       = [primaryMessages (turnSystemPrompt demo_env []) ''hi'' (screenshot demo_env),
          textOnlyMessages (turnSystemPrompt demo_env []) ''hi'']
     \<and> snd (snd (sendMessage ''hi'' [] demo_env demo_service))
       = (case streamChat demo_env (textOnlyMessages (turnSystemPrompt demo_env []) ''hi'') of
            Inl e2 \<Rightarrow> Failure (message e2)
          | Inr reads \<Rightarrow>
              if windowAvailable demo_env AtFallbackStream then Success
              else Failure (Some ''Ask window is not available.''))"
    by blast
  from multimodal_fallback_retries_once [OF f(1-3) d(4), where svc = demo_service and raw = "[]"
      and userPrompt = "''hi''" and e = "JsError (Some ''rate limit exceeded'')"]
    f_fail nm
  have B: "streamChatCalls (fst (snd (sendMessage ''hi'' [] failing_env demo_service)))
       = [primaryMessages (turnSystemPrompt failing_env []) ''hi'' (screenshot failing_env)]
     \<and> snd (snd (sendMessage ''hi'' [] failing_env demo_service))
       = Failure (message (JsError (Some ''rate limit exceeded'')))"
    by blast
  from A have A': "streamChatCalls (fst (snd (sendMessage ''hi'' [] demo_env demo_service)))
       = [primaryMessages ''system: No conversation history available.'' ''hi'' (Some ''QUJD''),
          textOnlyMessages ''system: No conversation history available.'' ''hi'']
     \<and> snd (snd (sendMessage ''hi'' [] demo_env demo_service)) = Success"
    unfolding d_retry by (simp add: d sp)
  from B have B': "streamChatCalls (fst (snd (sendMessage ''hi'' [] failing_env demo_service)))
       = [primaryMessages ''system: No conversation history available.'' ''hi'' None]
     \<and> snd (snd (sendMessage ''hi'' [] failing_env demo_service))
       = Failure (Some ''rate limit exceeded'')"
    by (simp add: f sp)
  let ?reads = "[ReadChunk ''data: Hel'',
                 ReadFails (JsError (Some ''400 Unsupported image input''))]"
  have r: "getOrCreateActive read_error_env = Inr 7" "addUserMessage read_error_env = None"
    "currentModelInfo read_error_env = Some ?mi" "screenshot read_error_env = Some ''QUJD''"
    "windowAvailable read_error_env AtPrimaryStream" "\<not> aborted read_error_env"
    "windowAvailable read_error_env AtStreamError"
    by (simp_all add: read_error_env_def demo_env_def)
  have r_sp: "turnSystemPrompt read_error_env [] = ''system: No conversation history available.''"
    by (simp add: turnSystemPrompt_def read_error_env_def demo_env_def
        formatConversationForPrompt_def)
  have r_open: "streamChat read_error_env (primaryMessages (turnSystemPrompt read_error_env [])
        ''hi'' (screenshot read_error_env)) = Inr ?reads"
    by (simp add: read_error_env_def demo_env_def)
  have r_fail: "readFailure read_error_env ?reads (turnStart demo_service ''hi'')
      = Some (JsError (Some ''400 Unsupported image input''))"
    by (simp add: readFailure_def read_error_env_def demo_env_def dataLines_def trim_def
        isWhiteSpace_def Let_def)
  from multimodal_fallback_retries_once [OF r(1-3) d(4), where svc = demo_service and raw = "[]"
      and userPrompt = "''hi''" and reads = ?reads
      and e' = "JsError (Some ''400 Unsupported image input'')"]
    r_open r_fail r(5-7)
  have C: "streamChatCalls (fst (snd (sendMessage ''hi'' [] read_error_env demo_service)))
       = [primaryMessages (turnSystemPrompt read_error_env []) ''hi'' (screenshot read_error_env)]
     \<and> snd (snd (sendMessage ''hi'' [] read_error_env demo_service)) = Success
     \<and> WinSend (StreamError (message (JsError (Some ''400 Unsupported image input''))))
         \<in> set (fst (snd (sendMessage ''hi'' [] read_error_env demo_service)))"
    by blast
  then have C': "streamChatCalls (fst (snd (sendMessage ''hi'' [] read_error_env demo_service)))
       = [primaryMessages ''system: No conversation history available.'' ''hi'' (Some ''QUJD'')]
     \<and> snd (snd (sendMessage ''hi'' [] read_error_env demo_service)) = Success
     \<and> WinSend (StreamError (Some ''400 Unsupported image input''))
         \<in> set (fst (snd (sendMessage ''hi'' [] read_error_env demo_service)))"
    by (simp add: r r_sp)
  from mm nm A' B' C' show ?thesis by blast
qed

text \<open>
  The claim as the specification words it fails for a streaming call that fails while its
  stream is read. With an image attached, a first frame delivered and the next read failing
  with a message that matches the condition text, and no cancellation, the model is called
  once only, without a retry, and the turn returns success with the partial response; so
  neither the retry nor the terminal failure that the claim promises takes place.
\<close>

theorem stream_read_error_not_retried_counterexample:
  "truthy (screenshot read_error_env)
   \<and> isMultimodalError (JsError (Some ''400 Unsupported image input''))
   \<and> \<not> aborted read_error_env
   \<and> streamChat read_error_env
        (primaryMessages ''system: No conversation history available.'' ''hi'' (Some ''QUJD''))
       = Inr [ReadChunk ''data: Hel'', ReadFails (JsError (Some ''400 Unsupported image input''))]
   \<and> streamChatCalls (fst (snd (sendMessage ''hi'' [] read_error_env demo_service)))
       = [primaryMessages ''system: No conversation history available.'' ''hi'' (Some ''QUJD'')]
   \<and> snd (snd (sendMessage ''hi'' [] read_error_env demo_service)) = Success
   \<and> currentResponse (state (fst (sendMessage ''hi'' [] read_error_env demo_service))) = ''Hel''"
  by (simp add: ask_eval read_error_env_def demo_env_def demo_service_def isMultimodalError_def
      toLowerCase_def toLowerChar_def conversationalFallback_def)












end
